theory Spec2Isabelle
  imports Complex_Main "HOL-Library.AList" "HOL-Library.Log_Nat"
begin

section \<open>Python values, exceptions and the world of \<open>monitor/parse.py\<close>\<close>

text \<open>
  The program is a Python script of three functions: \<open>parse_k6_summary\<close>,
  \<open>parse_resources\<close> and \<open>main\<close>. Its values are dynamically typed, so
  the values that come out of \<open>json.load\<close> and the dictionaries the script builds are
  one datatype. A dictionary is an association list in insertion order; its keys
  are distinct, as a Python dictionary's are.

  A Python float is an IEEE 754 double: a finite float is the rational number
  it equals (\<open>Finite 0\<close> is the positive zero), next to the negative zero, the
  two infinities and NaN.
\<close>

datatype pyfloat = Finite rat | NegZero | PosInf | NegInf | NaN

datatype pyval =
    PNone
  | PBool bool
  | PInt int
  | PFloat pyfloat
  | PStr string
  | PList "pyval list"
  | PDict "(string \<times> pyval) list"

datatype exn =
    FileNotFoundError
  | IsADirectoryError
  | NotADirectoryError
  | JSONDecodeError
  | UnicodeDecodeError
  | CsvError
  | AttributeError
  | TypeError
  | KeyError
  | ValueError
  | IndexError
  | ZeroDivisionError
  | OverflowError

text \<open>An exception that is raised and not caught ends the computation: \<open>Inl\<close>.\<close>

definition and_then :: "exn + 'a \<Rightarrow> ('a \<Rightarrow> exn + 'b) \<Rightarrow> exn + 'b" where
  "and_then m f = (case m of Inl e \<Rightarrow> Inl e | Inr x \<Rightarrow> f x)"

definition map_exn :: "('a \<Rightarrow> 'b) \<Rightarrow> exn + 'a \<Rightarrow> exn + 'b" where
  "map_exn f m = (case m of Inl e \<Rightarrow> Inl e | Inr x \<Rightarrow> Inr (f x))"

text \<open>
  A dictionary display \<open>{k1: e1, k2: e2, ...}\<close> evaluates its values from left to
  right; the first exception wins. The keys of every display in the script are
  distinct literals.
\<close>

fun dict_items :: "(string \<times> (exn + pyval)) list \<Rightarrow> exn + (string \<times> pyval) list" where
  "dict_items [] = Inr []"
| "dict_items ((k, m) # rest) =
     and_then m (\<lambda>v. and_then (dict_items rest) (\<lambda>kvs. Inr ((k, v) # kvs)))"

definition dict_literal :: "(string \<times> (exn + pyval)) list \<Rightarrow> exn + pyval" where
  "dict_literal items = map_exn PDict (dict_items items)"

text \<open>Reading a nested dictionary along a list of keys, for stating results.\<close>

fun at_path :: "pyval \<Rightarrow> string list \<Rightarrow> pyval option" where
  "at_path v [] = Some v"
| "at_path (PDict kvs) (k # ks) =
     (case map_of kvs k of None \<Rightarrow> None | Some v \<Rightarrow> at_path v ks)"
| "at_path _ (k # ks) = None"

subsection \<open>Float arithmetic\<close>

text \<open>The nearest integer to a rational, a tie going to the even one.\<close>

definition round_half_even :: "rat \<Rightarrow> int" where
  "round_half_even q =
     (let f = \<lfloor>q\<rfloor>; d = q - of_int f
      in if d < 1 / 2 then f
         else if 1 / 2 < d then f + 1
         else if even f then f else f + 1)"

text \<open>Powers of two, by repeated squaring.\<close>

function pow2n :: "nat \<Rightarrow> rat" where
  "pow2n n =
     (if n = 0 then 1
      else let h = pow2n (n div 2) in if even n then h * h else 2 * (h * h))"
  by pat_completeness auto
termination
  by (relation "measure id") auto

declare pow2n.simps [simp del]

definition pow2 :: "int \<Rightarrow> rat" where
  "pow2 k = (if 0 \<le> k then pow2n (nat k) else 1 / pow2n (nat (- k)))"

text \<open>
  The binary exponent of a positive rational \<open>a\<close>, that is the \<open>l\<close> with
  \<open>2^l \<le> a < 2^(l+1)\<close>, from the bit lengths of numerator and denominator.
\<close>

definition ilog2 :: "rat \<Rightarrow> int" where
  "ilog2 a =
     (let l = bitlen (fst (quotient_of a)) - bitlen (snd (quotient_of a))
      in if pow2 l \<le> a then l else l - 1)"

text \<open>
  The double nearest to a rational \<open>q\<close>, as every float operation rounds its
  exact result. Around \<open>\<bar>q\<bar>\<close> the doubles are the multiples of \<open>2^e\<close>, with 53
  significant bits and no spacing below the \<open>2^(-1074)\<close> of the subnormal
  numbers; \<open>\<bar>q\<bar>\<close> goes to the nearest multiple, a tie to the even one. What
  rounds beyond the largest double \<open>(2^53 - 1) * 2^971\<close> is an infinity, what
  rounds to nothing is a zero with the sign of \<open>q\<close>.
\<close>

definition nearest_double :: "rat \<Rightarrow> pyfloat" where
  "nearest_double q =
     (if q = 0 then Finite 0
      else
        let a = \<bar>q\<bar>;
            e = max (ilog2 a - 52) (- 1074)
        in if 971 < e then (if q < 0 then NegInf else PosInf)
           else
             let m = round_half_even (a / pow2 e)
             in if e = 971 \<and> m = 2 ^ 53 then (if q < 0 then NegInf else PosInf)
                else if m = 0 then (if q < 0 then NegZero else Finite 0)
                else Finite (if q < 0 then - (of_int m * pow2 e) else of_int m * pow2 e))"

definition is_nan :: "pyfloat \<Rightarrow> bool" where
  "is_nan x = (x = NaN)"

definition is_inf :: "pyfloat \<Rightarrow> bool" where
  "is_inf x = (x = PosInf \<or> x = NegInf)"

definition is_zero :: "pyfloat \<Rightarrow> bool" where
  "is_zero x = (x = Finite 0 \<or> x = NegZero)"

definition is_finite :: "pyfloat \<Rightarrow> bool" where
  "is_finite x = (\<not> is_nan x \<and> \<not> is_inf x)"

text \<open>The real number a finite float stands for, and the sign bit.\<close>

fun float_value :: "pyfloat \<Rightarrow> rat" where
  "float_value (Finite q) = q"
| "float_value _ = 0"

fun sign_bit :: "pyfloat \<Rightarrow> bool" where
  "sign_bit (Finite q) = (q < 0)"
| "sign_bit NegZero = True"
| "sign_bit NegInf = True"
| "sign_bit _ = False"

text \<open>\<open>x < y\<close> of two floats: NaN compares false with everything, the zeros are equal.\<close>

fun float_less :: "pyfloat \<Rightarrow> pyfloat \<Rightarrow> bool" where
  "float_less NaN y = False"
| "float_less x NaN = False"
| "float_less PosInf y = False"
| "float_less x PosInf = True"
| "float_less x NegInf = False"
| "float_less NegInf y = True"
| "float_less x y = (float_value x < float_value y)"

fun float_neg :: "pyfloat \<Rightarrow> pyfloat" where
  "float_neg (Finite q) = (if q = 0 then NegZero else Finite (- q))"
| "float_neg NegZero = Finite 0"
| "float_neg PosInf = NegInf"
| "float_neg NegInf = PosInf"
| "float_neg NaN = NaN"

definition signed :: "bool \<Rightarrow> pyfloat \<Rightarrow> pyfloat" where
  "signed negative x = (if negative then float_neg x else x)"

text \<open>
  \<open>x + y\<close>, \<open>x - y\<close> and \<open>x * y\<close> of two floats: the exact result, rounded once.
  An exact sum of zero is the positive zero, unless both operands are the
  negative zero.
\<close>

definition float_add :: "pyfloat \<Rightarrow> pyfloat \<Rightarrow> pyfloat" where
  "float_add x y =
     (if is_nan x \<or> is_nan y then NaN
      else if is_inf x \<and> is_inf y then (if x = y then x else NaN)
      else if is_inf x then x
      else if is_inf y then y
      else if x = NegZero \<and> y = NegZero then NegZero
      else if float_value x + float_value y = 0 then Finite 0
      else nearest_double (float_value x + float_value y))"

definition float_sub :: "pyfloat \<Rightarrow> pyfloat \<Rightarrow> pyfloat" where
  "float_sub x y = float_add x (float_neg y)"

definition float_mul :: "pyfloat \<Rightarrow> pyfloat \<Rightarrow> pyfloat" where
  "float_mul x y =
     (if is_nan x \<or> is_nan y then NaN
      else if (is_inf x \<and> is_zero y) \<or> (is_zero x \<and> is_inf y) then NaN
      else if is_inf x \<or> is_inf y then signed (sign_bit x \<noteq> sign_bit y) PosInf
      else if is_zero x \<or> is_zero y then signed (sign_bit x \<noteq> sign_bit y) (Finite 0)
      else nearest_double (float_value x * float_value y))"

text \<open>\<open>x / y\<close> of two floats: a zero divisor is a \<open>ZeroDivisionError\<close>.\<close>

definition float_div :: "pyfloat \<Rightarrow> pyfloat \<Rightarrow> exn + pyfloat" where
  "float_div x y =
     (if is_zero y then Inl ZeroDivisionError
      else if is_nan x \<or> is_nan y then Inr NaN
      else if is_inf x \<and> is_inf y then Inr NaN
      else if is_inf x then Inr (signed (sign_bit x \<noteq> sign_bit y) PosInf)
      else if is_inf y \<or> is_zero x then Inr (signed (sign_bit x \<noteq> sign_bit y) (Finite 0))
      else Inr (nearest_double (float_value x / float_value y)))"

text \<open>
  An \<open>int\<close> where a float is needed is converted to the nearest double; an
  \<open>int\<close> beyond the doubles is an \<open>OverflowError\<close>.
\<close>

definition int_to_float :: "int \<Rightarrow> exn + pyfloat" where
  "int_to_float n =
     (let x = nearest_double (of_int n) in if is_inf x then Inl OverflowError else Inr x)"

text \<open>\<open>x / n\<close> of a float and an \<open>int\<close>: the \<open>int\<close> is converted, then the floats divide.\<close>

definition float_div_int :: "pyfloat \<Rightarrow> int \<Rightarrow> exn + pyfloat" where
  "float_div_int x n = and_then (int_to_float n) (float_div x)"

text \<open>
  \<open>a / b\<close> of two \<open>int\<close>s: the exact quotient is rounded once to the nearest
  double; a quotient beyond the doubles is an \<open>OverflowError\<close>.
\<close>

definition int_truediv :: "int \<Rightarrow> int \<Rightarrow> exn + pyfloat" where
  "int_truediv a b =
     (if b = 0 then Inl ZeroDivisionError
      else let x = nearest_double (of_int a / of_int b)
           in if is_inf x then Inl OverflowError else Inr x)"

subsection \<open>The builtins \<open>round\<close>, \<open>sum\<close>, \<open>max\<close>, \<open>min\<close> and indexing\<close>

text \<open>
  \<open>round(x, 2)\<close> of a float rounds the exact value of \<open>x\<close> to a multiple of one
  hundredth, a tie going to the even one, and returns the double nearest to that
  decimal. The model holds the decimal itself: it is what \<open>str\<close> and
  \<open>json.dump\<close> write for the float returned, and the script applies no
  arithmetic to a rounded value. A negative \<open>x\<close> that rounds to zero gives the
  negative zero; NaN and the infinities are returned as they are.
\<close>

definition round2 :: "rat \<Rightarrow> rat" where
  "round2 q = of_int (round_half_even (q * 100)) / 100"

definition float_round2 :: "pyfloat \<Rightarrow> pyfloat" where
  "float_round2 x =
     (case x of
        Finite q \<Rightarrow> (if round2 q = 0 \<and> q < 0 then NegZero else Finite (round2 q))
      | _ \<Rightarrow> x)"

text \<open>
  \<open>round(x)\<close> of a float is an \<open>int\<close>: NaN is a \<open>ValueError\<close>, an infinity an
  \<open>OverflowError\<close>.
\<close>

definition float_round :: "pyfloat \<Rightarrow> exn + int" where
  "float_round x =
     (case x of
        Finite q \<Rightarrow> Inr (round_half_even q)
      | NegZero \<Rightarrow> Inr 0
      | NaN \<Rightarrow> Inl ValueError
      | _ \<Rightarrow> Inl OverflowError)"

text \<open>
  \<open>round(v, 2)\<close> of any value: an \<open>int\<close> (and a \<open>bool\<close>, which is an \<open>int\<close>)
  comes back as the same integer, a float is rounded, anything else has no
  \<open>__round__\<close>.
\<close>

fun py_round2 :: "pyval \<Rightarrow> exn + pyval" where
  "py_round2 (PInt n) = Inr (PInt n)"
| "py_round2 (PBool b) = Inr (PInt (if b then 1 else 0))"
| "py_round2 (PFloat x) = Inr (PFloat (float_round2 x))"
| "py_round2 _ = Inl TypeError"

text \<open>
  \<open>sum(xs)\<close> starts from the \<open>int\<close> \<open>0\<close> and adds the items from left to right.
  With floats the \<open>0\<close> becomes \<open>0.0\<close> and every addition rounds. (CPython from
  version 3.12 on carries a correction term through a sum of floats; the fold
  is \<open>sum\<close> as the versions before compute it.)
\<close>

definition py_sum :: "int list \<Rightarrow> int" where
  "py_sum xs = foldl (+) 0 xs"

definition float_sum :: "pyfloat list \<Rightarrow> pyfloat" where
  "float_sum xs = foldl float_add (Finite 0) xs"

text \<open>
  \<open>max(xs)\<close> and \<open>min(xs)\<close> keep the first item and replace it by a later one
  that is strictly greater (smaller), in the order \<open>lt\<close> of the items' type; an
  empty argument is a \<open>ValueError\<close>.
\<close>

fun py_max :: "('a \<Rightarrow> 'a \<Rightarrow> bool) \<Rightarrow> 'a list \<Rightarrow> exn + 'a" where
  "py_max lt [] = Inl ValueError"
| "py_max lt (x # xs) = Inr (foldl (\<lambda>m y. if lt m y then y else m) x xs)"

fun py_min :: "('a \<Rightarrow> 'a \<Rightarrow> bool) \<Rightarrow> 'a list \<Rightarrow> exn + 'a" where
  "py_min lt [] = Inl ValueError"
| "py_min lt (x # xs) = Inr (foldl (\<lambda>m y. if lt y m then y else m) x xs)"

text \<open>\<open>xs[0]\<close> and \<open>xs[-1]\<close>.\<close>

fun py_first :: "'a list \<Rightarrow> exn + 'a" where
  "py_first [] = Inl IndexError"
| "py_first (x # xs) = Inr x"

fun py_last :: "'a list \<Rightarrow> exn + 'a" where
  "py_last [] = Inl IndexError"
| "py_last (x # xs) = Inr (last (x # xs))"

subsection \<open>Files\<close>

text \<open>
  A \<open>pathlib.Path\<close> is the list of its components, and the file system maps a
  path to what is there. Distinct paths name distinct files (no links).
\<close>

type_synonym path = "string list"

datatype node = Dir | File string

type_synonym filesystem = "path \<Rightarrow> node option"

definition path_exists :: "filesystem \<Rightarrow> path \<Rightarrow> bool" where
  "path_exists fs p = (fs p \<noteq> None)"

text \<open>\<open>open(filepath)\<close> followed by reading the whole file.\<close>

definition open_read :: "filesystem \<Rightarrow> path \<Rightarrow> exn + string" where
  "open_read fs p =
     (case fs p of
        None \<Rightarrow> Inl FileNotFoundError
      | Some Dir \<Rightarrow> Inl IsADirectoryError
      | Some (File s) \<Rightarrow> Inr s)"

text \<open>
  \<open>open(output_file, 'w')\<close> followed by writing \<open>content\<close>: the parent must be a
  directory and the target must not be one.
\<close>

definition open_write :: "filesystem \<Rightarrow> path \<Rightarrow> path \<Rightarrow> string \<Rightarrow> exn + filesystem" where
  "open_write fs parent target content =
     (case fs parent of
        None \<Rightarrow> Inl FileNotFoundError
      | Some (File s) \<Rightarrow> Inl NotADirectoryError
      | Some Dir \<Rightarrow>
          (case fs target of
             Some Dir \<Rightarrow> Inl IsADirectoryError
           | _ \<Rightarrow> Inr (fs(target \<mapsto> File content))))"

subsection \<open>The standard library\<close>

text \<open>
  The script calls into Python's standard library: \<open>json.load\<close>, \<open>csv.DictReader\<close>,
  \<open>int\<close> and \<open>float\<close> of a string, \<open>json.dump\<close> with \<open>indent=2\<close>, \<open>str\<close> of a
  value, \<open>pathlib.Path\<close> of a string and \<open>str\<close> of a path. These are not code of
  the repository; the model takes them as the fields of a record, and every
  theorem holds for every such library. \<open>float\<close> of a string gives a float, which
  may be NaN or an infinity (\<open>float('nan')\<close>, \<open>float('inf')\<close>), as may a number of
  \<open>json.load\<close>.

  A row of \<open>csv.DictReader\<close> maps a column name to its text, or to \<open>None\<close> when
  the line is shorter than the header. The reader yields rows one by one and
  may stop with an exception: the rows it yielded, then the exception if any.
\<close>

type_synonym csv_row = "(string \<times> string option) list"

record pylib =
  json_load :: "string \<Rightarrow> exn + pyval"
  csv_DictReader :: "string \<Rightarrow> csv_row list \<times> exn option"
  int_of_str :: "string \<Rightarrow> int option"
  float_of_str :: "string \<Rightarrow> pyfloat option"
  json_dump :: "pyval \<Rightarrow> string"
  str_of :: "pyval \<Rightarrow> string"
  path_of_str :: "string \<Rightarrow> path"
  path_str :: "path \<Rightarrow> string"

section \<open>\<open>parse_resources\<close>\<close>

text \<open>One dictionary of the list \<open>rows\<close> (lines 62 to 68): its keys are fixed.\<close>

record sample =
  timestamp :: int
  cpu :: pyfloat
  rss_mb :: pyfloat
  fd_count :: int
  threads :: int

text \<open>
  \<open>int(row[key])\<close> and \<open>float(row[key])\<close>: a missing column is a \<open>KeyError\<close>,
  \<open>None\<close> is a \<open>TypeError\<close>, text that is no number is a \<open>ValueError\<close>.
\<close>

definition row_int :: "pylib \<Rightarrow> csv_row \<Rightarrow> string \<Rightarrow> exn + int" where
  "row_int lib row key =
     (case map_of row key of
        None \<Rightarrow> Inl KeyError
      | Some None \<Rightarrow> Inl TypeError
      | Some (Some s) \<Rightarrow>
          (case int_of_str lib s of None \<Rightarrow> Inl ValueError | Some n \<Rightarrow> Inr n))"

definition row_float :: "pylib \<Rightarrow> csv_row \<Rightarrow> string \<Rightarrow> exn + pyfloat" where
  "row_float lib row key =
     (case map_of row key of
        None \<Rightarrow> Inl KeyError
      | Some None \<Rightarrow> Inl TypeError
      | Some (Some s) \<Rightarrow>
          (case float_of_str lib s of None \<Rightarrow> Inl ValueError | Some x \<Rightarrow> Inr x))"

definition parse_row :: "pylib \<Rightarrow> csv_row \<Rightarrow> exn + sample" where
  "parse_row lib row =
     and_then (row_int lib row ''timestamp'') (\<lambda>t.
     and_then (row_float lib row ''cpu_percent'') (\<lambda>c.
     and_then (row_float lib row ''rss_mb'') (\<lambda>m.
     and_then (row_int lib row ''fd_count'') (\<lambda>f.
     and_then (row_int lib row ''threads'') (\<lambda>th.
       Inr \<lparr>timestamp = t, cpu = c, rss_mb = m, fd_count = f, threads = th\<rparr>)))))"

text \<open>The loop \<open>for row in reader: rows.append(...)\<close>.\<close>

fun read_rows :: "pylib \<Rightarrow> csv_row list \<Rightarrow> sample list \<Rightarrow> exn + sample list" where
  "read_rows lib [] rows = Inr rows"
| "read_rows lib (row # rest) rows =
     and_then (parse_row lib row) (\<lambda>s. read_rows lib rest (rows @ [s]))"

text \<open>Lines 58 to 68: open the file and fill \<open>rows\<close>.\<close>

definition load_rows :: "pylib \<Rightarrow> filesystem \<Rightarrow> path \<Rightarrow> exn + sample list" where
  "load_rows lib fs filepath =
     and_then (open_read fs filepath) (\<lambda>text.
       case csv_DictReader lib text of
         (raw, stop) \<Rightarrow>
           and_then (read_rows lib raw []) (\<lambda>rows.
             case stop of None \<Rightarrow> Inr rows | Some e \<Rightarrow> Inl e))"

text \<open>
  Lines 70 to 94: the aggregates of a list of rows. The columns \<open>cpu_percent\<close>
  and \<open>rss_mb\<close> hold floats, so their sum, quotient and difference are float
  operations; \<open>fd_count\<close> holds \<open>int\<close>s, so \<open>sum(fds) / len(fds)\<close> divides two
  \<open>int\<close>s.
\<close>

definition aggregate :: "sample list \<Rightarrow> exn + pyval" where
  "aggregate rows =
     (if rows = [] then Inr (PDict [])
      else
        let cpus = map cpu rows;
            rss = map rss_mb rows;
            fds = map fd_count rows
        in dict_literal
          [(''cpu'', dict_literal
              [(''avg'', map_exn (\<lambda>x. PFloat (float_round2 x))
                   (float_div_int (float_sum cpus) (int (length cpus)))),
               (''max'', map_exn (\<lambda>x. PFloat (float_round2 x)) (py_max float_less cpus)),
               (''min'', map_exn (\<lambda>x. PFloat (float_round2 x)) (py_min float_less cpus))]),
           (''memory_mb'', dict_literal
              [(''avg'', map_exn (\<lambda>x. PFloat (float_round2 x))
                   (float_div_int (float_sum rss) (int (length rss)))),
               (''max'', map_exn (\<lambda>x. PFloat (float_round2 x)) (py_max float_less rss)),
               (''min'', map_exn (\<lambda>x. PFloat (float_round2 x)) (py_min float_less rss)),
               (''growth'', and_then (py_last rss) (\<lambda>l. and_then (py_first rss)
                   (\<lambda>f. Inr (PFloat (float_round2 (float_sub l f))))))]),
           (''fd_count'', dict_literal
              [(''avg'', and_then (int_truediv (py_sum fds) (int (length fds)))
                   (\<lambda>x. map_exn PInt (float_round x))),
               (''max'', map_exn PInt (py_max (<) fds))]),
           (''samples'', Inr (PInt (int (length rows))))])"

definition parse_resources :: "pylib \<Rightarrow> filesystem \<Rightarrow> path \<Rightarrow> exn + pyval" where
  "parse_resources lib fs filepath = and_then (load_rows lib fs filepath) aggregate"

section \<open>\<open>parse_k6_summary\<close>\<close>

subsection \<open>Operations on dynamically typed values\<close>

text \<open>\<open>k in s\<close> for two strings: \<open>k\<close> occurs in \<open>s\<close>.\<close>

fun starts_with :: "string \<Rightarrow> string \<Rightarrow> bool" where
  "starts_with [] s = True"
| "starts_with (c # cs) [] = False"
| "starts_with (c # cs) (d # ds) = (c = d \<and> starts_with cs ds)"

fun is_substring :: "string \<Rightarrow> string \<Rightarrow> bool" where
  "is_substring k [] = (k = [])"
| "is_substring k (c # cs) = (starts_with k (c # cs) \<or> is_substring k cs)"

text \<open>
  \<open>k in v\<close> with a string \<open>k\<close>: a key of a dictionary, an item of a list, a
  substring of a string; the other values are not iterable.
\<close>

fun py_contains :: "string \<Rightarrow> pyval \<Rightarrow> exn + bool" where
  "py_contains k (PDict kvs) = Inr (map_of kvs k \<noteq> None)"
| "py_contains k (PList xs) = Inr (PStr k \<in> set xs)"
| "py_contains k (PStr s) = Inr (is_substring k s)"
| "py_contains k _ = Inl TypeError"

text \<open>\<open>v[k]\<close> with a string \<open>k\<close>: only a dictionary can be indexed by a string.\<close>

fun py_getitem :: "pyval \<Rightarrow> string \<Rightarrow> exn + pyval" where
  "py_getitem (PDict kvs) k = (case map_of kvs k of None \<Rightarrow> Inl KeyError | Some v \<Rightarrow> Inr v)"
| "py_getitem _ k = Inl TypeError"

text \<open>\<open>v.get(k, default)\<close>: only a dictionary has the method.\<close>

fun py_get :: "pyval \<Rightarrow> string \<Rightarrow> pyval \<Rightarrow> exn + pyval" where
  "py_get (PDict kvs) k dflt = Inr (case map_of kvs k of None \<Rightarrow> dflt | Some v \<Rightarrow> v)"
| "py_get _ k dflt = Inl AttributeError"

text \<open>
  \<open>v * 100\<close>: numbers multiply (a float with the float \<open>100.0\<close>, rounding the
  product), strings and lists repeat.
\<close>

fun py_mul100 :: "pyval \<Rightarrow> exn + pyval" where
  "py_mul100 (PInt n) = Inr (PInt (n * 100))"
| "py_mul100 (PBool b) = Inr (PInt (if b then 100 else 0))"
| "py_mul100 (PFloat x) = Inr (PFloat (float_mul x (Finite 100)))"
| "py_mul100 (PStr s) = Inr (PStr (concat (replicate 100 s)))"
| "py_mul100 (PList xs) = Inr (PList (concat (replicate 100 xs)))"
| "py_mul100 _ = Inl TypeError"

text \<open>\<open>round(d.get(key, 0), 2)\<close>.\<close>

definition rounded_stat :: "pyval \<Rightarrow> string \<Rightarrow> exn + pyval" where
  "rounded_stat d key = and_then (py_get d key (PInt 0)) py_round2"

subsection \<open>The five blocks of the function\<close>

text \<open>Lines 19 to 29.\<close>

definition latency_block :: "pyval \<Rightarrow> (string \<times> pyval) list \<Rightarrow> exn + (string \<times> pyval) list" where
  "latency_block metrics result =
     and_then (py_contains ''http_req_duration'' metrics) (\<lambda>present.
       if present then
         and_then (py_getitem metrics ''http_req_duration'') (\<lambda>m.
         and_then (py_getitem m ''values'') (\<lambda>d.
         and_then (dict_literal
           [(''avg'', rounded_stat d ''avg''),
            (''p50'', rounded_stat d ''med''),
            (''p90'', rounded_stat d ''p(90)''),
            (''p95'', rounded_stat d ''p(95)''),
            (''p99'', rounded_stat d ''p(99)''),
            (''min'', rounded_stat d ''min''),
            (''max'', rounded_stat d ''max'')]) (\<lambda>v.
           Inr (AList.update ''latency'' v result))))
       else Inr result)"

text \<open>Lines 32 to 39.\<close>

definition ttfb_block :: "pyval \<Rightarrow> (string \<times> pyval) list \<Rightarrow> exn + (string \<times> pyval) list" where
  "ttfb_block metrics result =
     and_then (py_contains ''http_req_waiting'' metrics) (\<lambda>present.
       if present then
         and_then (py_getitem metrics ''http_req_waiting'') (\<lambda>m.
         and_then (py_getitem m ''values'') (\<lambda>d.
         and_then (dict_literal
           [(''avg'', rounded_stat d ''avg''),
            (''p50'', rounded_stat d ''med''),
            (''p95'', rounded_stat d ''p(95)''),
            (''p99'', rounded_stat d ''p(99)'')]) (\<lambda>v.
           Inr (AList.update ''ttfb'' v result))))
       else Inr result)"

text \<open>Lines 42 to 44: two assignments, each reading \<open>metrics['http_reqs']['values']\<close>.\<close>

definition reqs_block :: "pyval \<Rightarrow> (string \<times> pyval) list \<Rightarrow> exn + (string \<times> pyval) list" where
  "reqs_block metrics result =
     and_then (py_contains ''http_reqs'' metrics) (\<lambda>present.
       if present then
         and_then (py_getitem metrics ''http_reqs'') (\<lambda>m.
         and_then (py_getitem m ''values'') (\<lambda>d.
         and_then (rounded_stat d ''rate'') (\<lambda>rps.
         and_then (py_getitem metrics ''http_reqs'') (\<lambda>m'.
         and_then (py_getitem m' ''values'') (\<lambda>d'.
         and_then (py_get d' ''count'' (PInt 0)) (\<lambda>total.
           Inr (AList.update ''total_requests'' total
                 (AList.update ''rps'' rps result))))))))
       else Inr result)"

text \<open>Lines 47 and 48.\<close>

definition success_block :: "pyval \<Rightarrow> (string \<times> pyval) list \<Rightarrow> exn + (string \<times> pyval) list" where
  "success_block metrics result =
     and_then (py_contains ''success_rate'' metrics) (\<lambda>present.
       if present then
         and_then (py_getitem metrics ''success_rate'') (\<lambda>m.
         and_then (py_getitem m ''values'') (\<lambda>d.
         and_then (py_get d ''rate'' (PInt 0)) (\<lambda>rate.
         and_then (py_mul100 rate) (\<lambda>percent.
         and_then (py_round2 percent) (\<lambda>v.
           Inr (AList.update ''success_rate'' v result))))))
       else Inr result)"

text \<open>Lines 50 and 51.\<close>

definition error_block :: "pyval \<Rightarrow> (string \<times> pyval) list \<Rightarrow> exn + (string \<times> pyval) list" where
  "error_block metrics result =
     and_then (py_contains ''error_count'' metrics) (\<lambda>present.
       if present then
         and_then (py_getitem metrics ''error_count'') (\<lambda>m.
         and_then (py_getitem m ''values'') (\<lambda>d.
         and_then (py_get d ''count'' (PInt 0)) (\<lambda>v.
           Inr (AList.update ''error_count'' v result))))
       else Inr result)"

text \<open>Lines 15 to 53: from the decoded document to the result dictionary.\<close>

definition k6_result :: "pyval \<Rightarrow> exn + pyval" where
  "k6_result data =
     and_then (py_get data ''metrics'' (PDict [])) (\<lambda>metrics.
     and_then (latency_block metrics []) (\<lambda>result.
     and_then (ttfb_block metrics result) (\<lambda>result.
     and_then (reqs_block metrics result) (\<lambda>result.
     and_then (success_block metrics result) (\<lambda>result.
     and_then (error_block metrics result) (\<lambda>result.
       Inr (PDict result)))))))"

definition parse_k6_summary :: "pylib \<Rightarrow> filesystem \<Rightarrow> path \<Rightarrow> exn + pyval" where
  "parse_k6_summary lib fs filepath =
     and_then (open_read fs filepath) (\<lambda>text.
     and_then (json_load lib text) k6_result)"

subsection \<open>The input schema\<close>

text \<open>
  A document of the consumed schema
  \<open>{"metrics": {name: {"values": {stat: number, ...}}, ...}}\<close>,
  with \<open>P\<close> the property every statistic has.
\<close>

definition is_number :: "pyval \<Rightarrow> bool" where
  "is_number v = (case v of PInt n \<Rightarrow> True | PFloat x \<Rightarrow> True | _ \<Rightarrow> False)"

text \<open>A number that is a real (no NaN, no infinity) and not negative.\<close>

definition nonneg_number :: "pyval \<Rightarrow> bool" where
  "nonneg_number v =
     (case v of
        PInt n \<Rightarrow> 0 \<le> n
      | PFloat x \<Rightarrow> is_finite x \<and> 0 \<le> float_value x
      | _ \<Rightarrow> False)"

definition metric_of :: "(pyval \<Rightarrow> bool) \<Rightarrow> pyval \<Rightarrow> bool" where
  "metric_of P m =
     (case m of
        PDict kvs \<Rightarrow>
          (case map_of kvs ''values'' of
             Some (PDict stats) \<Rightarrow> list_all (\<lambda>kv. P (snd kv)) stats
           | _ \<Rightarrow> False)
      | _ \<Rightarrow> False)"

definition k6_document :: "(pyval \<Rightarrow> bool) \<Rightarrow> pyval \<Rightarrow> bool" where
  "k6_document P data =
     (case data of
        PDict members \<Rightarrow>
          (case map_of members ''metrics'' of
             Some (PDict metrics) \<Rightarrow> list_all (\<lambda>kv. metric_of P (snd kv)) metrics
           | _ \<Rightarrow> False)
      | _ \<Rightarrow> False)"

text \<open>A float that is a real with at most two decimal places.\<close>

definition two_places :: "pyfloat \<Rightarrow> bool" where
  "two_places x = (is_finite x \<and> of_int \<lfloor>float_value x * 100\<rfloor> = float_value x * 100)"

text \<open>A value with at most two decimal places that is not negative.\<close>

definition nonneg_2dp :: "pyval \<Rightarrow> bool" where
  "nonneg_2dp v =
     (case v of
        PInt n \<Rightarrow> 0 \<le> n
      | PFloat x \<Rightarrow> two_places x \<and> 0 \<le> float_value x
      | _ \<Rightarrow> False)"

text \<open>
  For stating what the function returns on a document of the schema: the
  statistic \<open>m['values'].get(k, 0)\<close> of a metric \<open>m\<close>, and \<open>round(v, 2)\<close> of a
  number \<open>v\<close>.
\<close>

definition stat :: "pyval \<Rightarrow> string \<Rightarrow> pyval" where
  "stat m k = (case at_path m [''values'', k] of None \<Rightarrow> PInt 0 | Some v \<Rightarrow> v)"

definition rounded :: "pyval \<Rightarrow> pyval" where
  "rounded v = (case v of PFloat x \<Rightarrow> PFloat (float_round2 x) | _ \<Rightarrow> v)"

text \<open>\<open>v * 100\<close> of a number \<open>v\<close>.\<close>

definition percent :: "pyval \<Rightarrow> pyval" where
  "percent v =
     (case v of
        PInt n \<Rightarrow> PInt (n * 100)
      | PFloat x \<Rightarrow> PFloat (float_mul x (Finite 100))
      | _ \<Rightarrow> v)"

section \<open>\<open>main\<close>\<close>

subsection \<open>The fixed lists\<close>

definition gateways :: "string list" where
  "gateways = [''go'', ''node'', ''next'']"

text \<open>The format \<open>f's{i:02d}'\<close>: decimal digits, zero-padded to width two.\<close>

definition digit :: "nat \<Rightarrow> char" where
  "digit n = ''0123456789'' ! n"

function dec :: "nat \<Rightarrow> string" where
  "dec n = (if n < 10 then [digit n] else dec (n div 10) @ [digit (n mod 10)])"
  by pat_completeness auto
termination
  by (relation "measure id") auto

definition fmt_02d :: "nat \<Rightarrow> string" where
  "fmt_02d i = (let s = dec i in replicate (2 - length s) CHR ''0'' @ s)"

definition scenarios :: "string list" where
  "scenarios = map (\<lambda>i. ''s'' @ fmt_02d i) [1..<11]"

subsection \<open>Building the summary (lines 107 to 128)\<close>

text \<open>Lines 118 to 125: the entry of one scenario of one gateway.\<close>

definition scenario_entry ::
  "pylib \<Rightarrow> filesystem \<Rightarrow> path \<Rightarrow> string \<Rightarrow> exn + (string \<times> pyval) list" where
  "scenario_entry lib fs gw_dir scenario =
     (let k6_file = gw_dir @ [scenario @ ''-summary.json''];
          res_file = gw_dir @ [scenario @ ''-resources.csv'']
      in
        and_then
          (if path_exists fs k6_file
           then map_exn (\<lambda>p. AList.update ''performance'' p [])
                  (parse_k6_summary lib fs k6_file)
           else Inr [])
          (\<lambda>entry.
             if path_exists fs res_file
             then map_exn (\<lambda>r. AList.update ''resources'' r entry)
                    (parse_resources lib fs res_file)
             else Inr entry))"

text \<open>
  The loop over the scenarios; \<open>acc\<close> is the dictionary \<open>summary[gw]\<close>, which
  starts empty and gets one key per scenario with a non-empty entry.
\<close>

fun scenario_loop ::
  "pylib \<Rightarrow> filesystem \<Rightarrow> path \<Rightarrow> string list \<Rightarrow> (string \<times> pyval) list
     \<Rightarrow> exn + (string \<times> pyval) list" where
  "scenario_loop lib fs gw_dir [] acc = Inr acc"
| "scenario_loop lib fs gw_dir (scenario # rest) acc =
     and_then (scenario_entry lib fs gw_dir scenario) (\<lambda>entry.
       scenario_loop lib fs gw_dir rest
         (if entry \<noteq> [] then AList.update scenario (PDict entry) acc else acc))"

text \<open>
  The loop over the gateways. \<open>summary[gw]\<close> is one dictionary object, set when
  the gateway's directory exists and filled in place by the inner loop; no other
  key is added to \<open>summary\<close> meanwhile, so the model stores it when it is full.
\<close>

fun gateway_loop ::
  "pylib \<Rightarrow> filesystem \<Rightarrow> path \<Rightarrow> string list \<Rightarrow> (string \<times> pyval) list
     \<Rightarrow> exn + (string \<times> pyval) list" where
  "gateway_loop lib fs results_dir [] summary = Inr summary"
| "gateway_loop lib fs results_dir (gw # rest) summary =
     (let gw_dir = results_dir @ [gw]
      in if \<not> path_exists fs gw_dir
         then gateway_loop lib fs results_dir rest summary
         else
           and_then (scenario_loop lib fs gw_dir scenarios []) (\<lambda>d.
             gateway_loop lib fs results_dir rest (AList.update gw (PDict d) summary)))"

subsection \<open>Printing the tables (lines 131 to 162)\<close>

definition ljust :: "nat \<Rightarrow> string \<Rightarrow> string" where
  "ljust n s = s @ replicate (n - length s) CHR '' ''"

definition rjust :: "nat \<Rightarrow> string \<Rightarrow> string" where
  "rjust n s = replicate (n - length s) CHR '' '' @ s"

text \<open>\<open>str.upper\<close> on ASCII text.\<close>

definition upper_char :: "char \<Rightarrow> char" where
  "upper_char c =
     (case map_of (zip ''abcdefghijklmnopqrstuvwxyz'' ''ABCDEFGHIJKLMNOPQRSTUVWXYZ'') c of
        None \<Rightarrow> c
      | Some u \<Rightarrow> u)"

definition upper :: "string \<Rightarrow> string" where
  "upper s = map upper_char s"

text \<open>
  A getter \<open>lambda d: d.get(k1, {}).get(k2, {}) ... .get(kn, '-')\<close> is the list of
  its keys.
\<close>

fun getter :: "string list \<Rightarrow> pyval \<Rightarrow> exn + pyval" where
  "getter [] d = Inr d"
| "getter [k] d = py_get d k (PStr ''-'')"
| "getter (k # ks) d = and_then (py_get d k (PDict [])) (getter ks)"

definition metric_getters :: "(string \<times> string list) list" where
  "metric_getters =
     [(''RPS'', [''performance'', ''rps'']),
      (''Avg Latency (ms)'', [''performance'', ''latency'', ''avg'']),
      (''P50 Latency (ms)'', [''performance'', ''latency'', ''p50'']),
      (''P95 Latency (ms)'', [''performance'', ''latency'', ''p95'']),
      (''P99 Latency (ms)'', [''performance'', ''latency'', ''p99'']),
      (''Success Rate (%)'', [''performance'', ''success_rate'']),
      (''Avg CPU (%)'', [''resources'', ''cpu'', ''avg'']),
      (''Max CPU (%)'', [''resources'', ''cpu'', ''max'']),
      (''Avg Mem (MB)'', [''resources'', ''memory_mb'', ''avg'']),
      (''Max Mem (MB)'', [''resources'', ''memory_mb'', ''max'']),
      (''Mem Growth (MB)'', [''resources'', ''memory_mb'', ''growth'']),
      (''Max FD Count'', [''resources'', ''fd_count'', ''max''])]"

text \<open>Lines 160 and 161: \<open>str(getter(summary.get(gw, {}).get(scenario, {})))\<close>.\<close>

definition cell ::
  "pylib \<Rightarrow> (string \<times> pyval) list \<Rightarrow> string \<Rightarrow> string list \<Rightarrow> string \<Rightarrow> exn + string" where
  "cell lib summary scenario keys gw =
     and_then (py_get (PDict summary) gw (PDict [])) (\<lambda>g.
     and_then (py_get g scenario (PDict [])) (\<lambda>data.
       map_exn (str_of lib) (getter keys data)))"

text \<open>The loop \<open>for gw in gateways: vals.append(...)\<close>.\<close>

fun cells ::
  "pylib \<Rightarrow> (string \<times> pyval) list \<Rightarrow> string \<Rightarrow> string list \<Rightarrow> string list \<Rightarrow> string list
     \<Rightarrow> exn + string list" where
  "cells lib summary scenario keys [] vals = Inr vals"
| "cells lib summary scenario keys (gw # rest) vals =
     and_then (cell lib summary scenario keys gw) (\<lambda>v.
       cells lib summary scenario keys rest (vals @ [v]))"

text \<open>Line 162: \<open>f"{metric_name:<25} {vals[0]:>15} {vals[1]:>15} {vals[2]:>15}"\<close>.\<close>

definition format_row :: "string \<Rightarrow> string list \<Rightarrow> string" where
  "format_row metric_name vals =
     ljust 25 metric_name @ '' '' @ rjust 15 (vals ! 0) @ '' '' @ rjust 15 (vals ! 1)
       @ '' '' @ rjust 15 (vals ! 2)"

text \<open>
  What is printed is a list of lines, one per call of \<open>print\<close>. A loop that
  prints returns the lines so far and the exception that stopped it, if any.
\<close>

fun metric_rows ::
  "pylib \<Rightarrow> (string \<times> pyval) list \<Rightarrow> string \<Rightarrow> (string \<times> string list) list \<Rightarrow> string list
     \<Rightarrow> string list \<times> exn option" where
  "metric_rows lib summary scenario [] out = (out, None)"
| "metric_rows lib summary scenario ((metric_name, keys) # rest) out =
     (case cells lib summary scenario keys gateways [] of
        Inl e \<Rightarrow> (out, Some e)
      | Inr vals \<Rightarrow>
          metric_rows lib summary scenario rest (out @ [format_row metric_name vals]))"

text \<open>Line 136: \<open>any(scenario in summary.get(gw, {}) for gw in gateways)\<close>.\<close>

fun has_data :: "(string \<times> pyval) list \<Rightarrow> string \<Rightarrow> string list \<Rightarrow> exn + bool" where
  "has_data summary scenario [] = Inr False"
| "has_data summary scenario (gw # rest) =
     and_then (py_get (PDict summary) gw (PDict [])) (\<lambda>g.
     and_then (py_contains scenario g) (\<lambda>found.
       if found then Inr True else has_data summary scenario rest))"

definition table_head :: "string \<Rightarrow> string list" where
  "table_head scenario =
     [CHR 0x0A # ''--- '' @ upper scenario @ '' ---'',
      ljust 25 ''Metric'' @ '' '' @ rjust 15 ''Go'' @ '' '' @ rjust 15 ''Node.js''
        @ '' '' @ rjust 15 ''Next.js'',
      replicate 70 CHR ''-'']"

fun print_tables ::
  "pylib \<Rightarrow> (string \<times> pyval) list \<Rightarrow> string list \<Rightarrow> string list
     \<Rightarrow> string list \<times> exn option" where
  "print_tables lib summary [] out = (out, None)"
| "print_tables lib summary (scenario # rest) out =
     (case has_data summary scenario gateways of
        Inl e \<Rightarrow> (out, Some e)
      | Inr found \<Rightarrow>
          if \<not> found then print_tables lib summary rest out
          else
            (case metric_rows lib summary scenario metric_getters (out @ table_head scenario) of
               (out', Some e) \<Rightarrow> (out', Some e)
             | (out', None) \<Rightarrow> print_tables lib summary rest out'))"

definition banner :: "string list" where
  "banner =
     [CHR 0x0A # replicate 100 CHR ''='',
      ''LLM GATEWAY BENCHMARK RESULTS'',
      replicate 100 CHR ''='']"

subsection \<open>The whole run\<close>

text \<open>
  How a run ends: \<open>main\<close> returns, \<open>sys.exit(n)\<close> is called, or an exception
  reaches the top level. The interpreter's exit status is \<open>0\<close> after a return,
  \<open>n\<close> after \<open>sys.exit(n)\<close> and \<open>1\<close> after an uncaught exception, whose traceback
  goes to standard error.
\<close>

datatype outcome = Returned | SystemExit int | Uncaught exn

fun exit_status :: "outcome \<Rightarrow> int" where
  "exit_status Returned = 0"
| "exit_status (SystemExit n) = n"
| "exit_status (Uncaught e) = 1"

definition usage :: "string list" where
  "usage =
     [''Usage: python parse.py <results_dir>'',
      ''  results_dir should contain go/, node/, next/ subdirectories'']"

text \<open>
  A run takes the command line and the file system, and gives how it ended, the
  lines on standard output and the file system it leaves.
\<close>

definition main :: "pylib \<Rightarrow> string list \<Rightarrow> filesystem \<Rightarrow> outcome \<times> string list \<times> filesystem" where
  "main lib argv fs =
     (if length argv < 2 then (SystemExit 1, usage, fs)
      else
        let results_dir = path_of_str lib (argv ! 1);
            output_file = results_dir @ [''summary.json'']
        in (case gateway_loop lib fs results_dir gateways [] of
              Inl e \<Rightarrow> (Uncaught e, [], fs)
            | Inr summary \<Rightarrow>
                (case print_tables lib summary scenarios banner of
                   (out, Some e) \<Rightarrow> (Uncaught e, out, fs)
                 | (out, None) \<Rightarrow>
                     (case open_write fs results_dir output_file
                             (json_dump lib (PDict summary)) of
                        Inl e \<Rightarrow> (Uncaught e, out, fs)
                      | Inr fs' \<Rightarrow>
                          (Returned,
                           out @ [CHR 0x0A # ''Full summary saved to: ''
                                    @ path_str lib output_file],
                           fs')))))"

section \<open>A small library and a results directory for concrete runs\<close>

text \<open>
  The theorems below hold for every library. Where a run is evaluated on
  concrete files, the library is this one. It decodes the texts of the example
  files as Python does, a decimal numeral being the double nearest to it, and
  refuses every other text; it prints integers, and a float by the decimal
  expansion of the value the model holds; it writes JSON with an indentation of
  two spaces, quoting strings of plain ASCII; the path of a plain name is that
  one component.
\<close>

definition str_int :: "int \<Rightarrow> string" where
  "str_int n = (if n < 0 then CHR ''-'' # dec (nat (- n)) else dec (nat n))"

fun frac_digits :: "nat \<Rightarrow> rat \<Rightarrow> string" where
  "frac_digits 0 r = []"
| "frac_digits (Suc k) r =
     (if r = 0 then []
      else let d = nat \<lfloor>r * 10\<rfloor> in digit d # frac_digits k (r * 10 - of_nat d))"

definition str_decimal :: "rat \<Rightarrow> string" where
  "str_decimal q =
     (let a = \<bar>q\<bar>; whole = \<lfloor>a\<rfloor>; ds = frac_digits 17 (a - of_int whole)
      in (if q < 0 then ''-'' else []) @ dec (nat whole) @ ''.''
           @ (if ds = [] then ''0'' else ds))"

definition str_float :: "pyfloat \<Rightarrow> string" where
  "str_float x =
     (case x of
        Finite q \<Rightarrow> str_decimal q
      | NegZero \<Rightarrow> ''-0.0''
      | PosInf \<Rightarrow> ''inf''
      | NegInf \<Rightarrow> ''-inf''
      | NaN \<Rightarrow> ''nan'')"

definition json_float :: "pyfloat \<Rightarrow> string" where
  "json_float x =
     (case x of
        PosInf \<Rightarrow> ''Infinity''
      | NegInf \<Rightarrow> ''-Infinity''
      | NaN \<Rightarrow> ''NaN''
      | _ \<Rightarrow> str_float x)"

definition demo_str :: "pyval \<Rightarrow> string" where
  "demo_str v =
     (case v of
        PNone \<Rightarrow> ''None''
      | PBool b \<Rightarrow> (if b then ''True'' else ''False'')
      | PInt n \<Rightarrow> str_int n
      | PFloat x \<Rightarrow> str_float x
      | PStr s \<Rightarrow> s
      | PList xs \<Rightarrow> ''[...]''
      | PDict kvs \<Rightarrow> ''{...}'')"

definition quoted :: "string \<Rightarrow> string" where
  "quoted s =
     CHR 0x22 # concat (map (\<lambda>c. if c = CHR 0x22 \<or> c = CHR 0x5C then [CHR 0x5C, c] else [c]) s)
       @ [CHR 0x22]"

fun join_lines :: "string \<Rightarrow> string list \<Rightarrow> string" where
  "join_lines sep [] = []"
| "join_lines sep [x] = x"
| "join_lines sep (x # y # rest) = x @ sep @ join_lines sep (y # rest)"

definition newline_indent :: "nat \<Rightarrow> string" where
  "newline_indent n = CHR 0x0A # replicate n CHR '' ''"

fun demo_dump :: "nat \<Rightarrow> pyval \<Rightarrow> string" where
  "demo_dump n PNone = ''null''"
| "demo_dump n (PBool b) = (if b then ''true'' else ''false'')"
| "demo_dump n (PInt i) = str_int i"
| "demo_dump n (PFloat x) = json_float x"
| "demo_dump n (PStr s) = quoted s"
| "demo_dump n (PList xs) =
     (if xs = [] then ''[]''
      else ''['' @ newline_indent (n + 2)
           @ join_lines ('','' @ newline_indent (n + 2)) (map (demo_dump (n + 2)) xs)
           @ newline_indent n @ '']'')"
| "demo_dump n (PDict kvs) =
     (if kvs = [] then ''{}''
      else ''{'' @ newline_indent (n + 2)
           @ join_lines ('','' @ newline_indent (n + 2))
               (map (\<lambda>kv. quoted (fst kv) @ '': '' @ demo_dump (n + 2) (snd kv)) kvs)
           @ newline_indent n @ ''}'')"

text \<open>
  The example files: a k6 summary, a k6 summary with a negative average, a
  broken file, and three resource tables.
\<close>

definition k6_text :: string where
  "k6_text = ''{\"metrics\": {\"http_req_duration\": {\"values\": {\"avg\": 2.675, \"med\": 10.5, \"p(90)\": 20, \"p(95)\": 25.004, \"p(99)\": 40.0, \"min\": 1.25, \"max\": 99.999}}, \"http_req_waiting\": {\"values\": {\"avg\": 11.111, \"med\": 9.5, \"p(95)\": 24.0, \"p(99)\": 39.5}}, \"http_reqs\": {\"values\": {\"rate\": 123.456, \"count\": 1000}}, \"success_rate\": {\"values\": {\"rate\": 0.90025}}, \"error_count\": {\"values\": {\"count\": 3}}}}''"

definition k6_doc :: pyval where
  "k6_doc = PDict
     [(''metrics'', PDict
        [(''http_req_duration'', PDict [(''values'', PDict
            [(''avg'', PFloat (nearest_double (2675 / 1000))),
             (''med'', PFloat (nearest_double (105 / 10))),
             (''p(90)'', PInt 20),
             (''p(95)'', PFloat (nearest_double (25004 / 1000))),
             (''p(99)'', PFloat (nearest_double 40)),
             (''min'', PFloat (nearest_double (125 / 100))),
             (''max'', PFloat (nearest_double (99999 / 1000)))])]),
         (''http_req_waiting'', PDict [(''values'', PDict
            [(''avg'', PFloat (nearest_double (11111 / 1000))),
             (''med'', PFloat (nearest_double (95 / 10))),
             (''p(95)'', PFloat (nearest_double 24)),
             (''p(99)'', PFloat (nearest_double (395 / 10)))])]),
         (''http_reqs'', PDict [(''values'', PDict
            [(''rate'', PFloat (nearest_double (123456 / 1000))), (''count'', PInt 1000)])]),
         (''success_rate'', PDict [(''values'', PDict
            [(''rate'', PFloat (nearest_double (90025 / 100000)))])]),
         (''error_count'', PDict [(''values'', PDict [(''count'', PInt 3)])])])]"

definition negative_text :: string where
  "negative_text = ''{\"metrics\": {\"http_req_duration\": {\"values\": {\"avg\": -1.5}}, \"http_req_waiting\": {\"values\": {\"avg\": 1.5, \"med\": 1.0, \"p(90)\": 2.0, \"p(95)\": 2.5, \"p(99)\": 3.0, \"min\": 0.5, \"max\": 4.0}}}}''"

definition negative_doc :: pyval where
  "negative_doc = PDict
     [(''metrics'', PDict
        [(''http_req_duration'', PDict [(''values'', PDict
            [(''avg'', PFloat (nearest_double (- 15 / 10)))])]),
         (''http_req_waiting'', PDict [(''values'', PDict
            [(''avg'', PFloat (nearest_double (15 / 10))),
             (''med'', PFloat (nearest_double 1)),
             (''p(90)'', PFloat (nearest_double 2)),
             (''p(95)'', PFloat (nearest_double (25 / 10))),
             (''p(99)'', PFloat (nearest_double 3)),
             (''min'', PFloat (nearest_double (5 / 10))),
             (''max'', PFloat (nearest_double 4))])])])]"

definition broken_text :: string where
  "broken_text = ''{\"metrics\": ''"

definition csv_header :: string where
  "csv_header = ''timestamp,cpu_percent,rss_mb,fd_count,threads''"

definition csv_columns :: "string list" where
  "csv_columns = [''timestamp'', ''cpu_percent'', ''rss_mb'', ''fd_count'', ''threads'']"

definition csv_text :: string where
  "csv_text = csv_header @ [CHR 0x0A] @ ''1700000000,10.05,0.1,12,4'' @ [CHR 0x0A]
     @ ''1700000001,10.06,50.3,15,4'' @ [CHR 0x0A]
     @ ''1700000002,20.255,100.125,14,5'' @ [CHR 0x0A]"

definition csv_rows :: "csv_row list" where
  "csv_rows = map (\<lambda>fields. zip csv_columns (map Some fields))
     [[''1700000000'', ''10.05'', ''0.1'', ''12'', ''4''],
      [''1700000001'', ''10.06'', ''50.3'', ''15'', ''4''],
      [''1700000002'', ''20.255'', ''100.125'', ''14'', ''5'']]"


text \<open>A table of one row whose \<open>fd_count\<close> is \<open>2^53 + 1\<close>.\<close>

definition wide_text :: string where
  "wide_text = csv_header @ [CHR 0x0A] @ ''1700000000,1.5,100.0,9007199254740993,4''
     @ [CHR 0x0A]"

definition wide_rows :: "csv_row list" where
  "wide_rows =
     [zip csv_columns (map Some [''1700000000'', ''1.5'', ''100.0'', ''9007199254740993'', ''4''])]"


text \<open>A table of one row whose \<open>fd_count\<close> is \<open>10^400\<close>, a one and four hundred zeros.\<close>

definition huge_digits :: string where
  "huge_digits = CHR ''1'' # replicate 400 CHR ''0''"

definition huge_text :: string where
  "huge_text = csv_header @ [CHR 0x0A] @ ''1700000000,1.5,100.0,'' @ huge_digits @ '',4''
     @ [CHR 0x0A]"

definition huge_rows :: "csv_row list" where
  "huge_rows =
     [zip csv_columns (map Some [''1700000000'', ''1.5'', ''100.0'', huge_digits, ''4''])]"


definition demo_lib :: pylib where
  "demo_lib =
     \<lparr>json_load = (\<lambda>s. if s = k6_text then Inr k6_doc
                        else if s = negative_text then Inr negative_doc
                        else Inl JSONDecodeError),
      csv_DictReader = (\<lambda>s. if s = csv_text then (csv_rows, None)
                             else if s = wide_text then (wide_rows, None)
                             else if s = huge_text then (huge_rows, None)
                             else if s = csv_header @ [CHR 0x0A] then ([], None)
                             else ([], Some CsvError)),
      int_of_str = map_of
        [(''1700000000'', 1700000000), (''1700000001'', 1700000001),
         (''1700000002'', 1700000002), (''12'', 12), (''15'', 15), (''14'', 14),
         (''4'', 4), (''5'', 5), (''9007199254740993'', 9007199254740993),
         (huge_digits, 10 ^ 400)],
      float_of_str = map_of
        [(''10.05'', nearest_double (1005 / 100)), (''10.06'', nearest_double (1006 / 100)),
         (''20.255'', nearest_double (20255 / 1000)), (''0.1'', nearest_double (1 / 10)),
         (''50.3'', nearest_double (503 / 10)), (''100.125'', nearest_double (100125 / 1000)),
         (''1.5'', nearest_double (15 / 10)), (''100.0'', nearest_double 100)],
      json_dump = demo_dump 0,
      str_of = demo_str,
      path_of_str = (\<lambda>s. [s]),
      path_str = join_lines ''/''\<rparr>"

text \<open>
  The results directory: \<open>go\<close> has a k6 summary for \<open>s01\<close> and a resource table
  for \<open>s02\<close>, \<open>node\<close> is an empty directory, \<open>next\<close> does not exist.
\<close>

definition demo_fs :: filesystem where
  "demo_fs =
     [[''results''] \<mapsto> Dir,
      [''results'', ''go''] \<mapsto> Dir,
      [''results'', ''go'', ''s01-summary.json''] \<mapsto> File k6_text,
      [''results'', ''go'', ''s02-resources.csv''] \<mapsto> File csv_text,
      [''results'', ''node''] \<mapsto> Dir]"

text \<open>The same directory after a broken \<open>go/s02-summary.json\<close> was put there.\<close>

definition broken_fs :: filesystem where
  "broken_fs = demo_fs([''results'', ''go'', ''s02-summary.json''] \<mapsto> File broken_text)"

text \<open>A directory whose only file is a resource table with a header and no row.\<close>

definition header_only_fs :: filesystem where
  "header_only_fs =
     [[''results''] \<mapsto> Dir,
      [''results'', ''go''] \<mapsto> Dir,
      [''results'', ''go'', ''s01-resources.csv''] \<mapsto> File (csv_header @ [CHR 0x0A])]"

text \<open>A directory whose only file is a k6 summary with a negative average.\<close>

definition negative_fs :: filesystem where
  "negative_fs =
     [[''results''] \<mapsto> Dir,
      [''results'', ''go''] \<mapsto> Dir,
      [''results'', ''go'', ''s01-summary.json''] \<mapsto> File negative_text]"



text \<open>What the two parsers return on the example files, and the summary of \<open>demo_fs\<close>.\<close>

definition demo_performance :: pyval where
  "demo_performance = PDict
     [(''latency'', PDict
        [(''avg'', PFloat (Finite (267 / 100))), (''p50'', PFloat (Finite (105 / 10))),
         (''p90'', PInt 20), (''p95'', PFloat (Finite 25)), (''p99'', PFloat (Finite 40)),
         (''min'', PFloat (Finite (125 / 100))), (''max'', PFloat (Finite 100))]),
      (''ttfb'', PDict
        [(''avg'', PFloat (Finite (1111 / 100))), (''p50'', PFloat (Finite (95 / 10))),
         (''p95'', PFloat (Finite 24)), (''p99'', PFloat (Finite (395 / 10)))]),
      (''rps'', PFloat (Finite (12346 / 100))),
      (''total_requests'', PInt 1000),
      (''success_rate'', PFloat (Finite (9003 / 100))),
      (''error_count'', PInt 3)]"

definition demo_resources :: pyval where
  "demo_resources = PDict
     [(''cpu'', PDict
        [(''avg'', PFloat (Finite (1345 / 100))), (''max'', PFloat (Finite (2025 / 100))),
         (''min'', PFloat (Finite (1005 / 100)))]),
      (''memory_mb'', PDict
        [(''avg'', PFloat (Finite (5018 / 100))), (''max'', PFloat (Finite (10012 / 100))),
         (''min'', PFloat (Finite (1 / 10))), (''growth'', PFloat (Finite (10003 / 100)))]),
      (''fd_count'', PDict [(''avg'', PInt 14), (''max'', PInt 15)]),
      (''samples'', PInt 3)]"


definition demo_summary :: "(string \<times> pyval) list" where
  "demo_summary =
     [(''go'', PDict
        [(''s01'', PDict [(''performance'', demo_performance)]),
         (''s02'', PDict [(''resources'', demo_resources)])]),
      (''node'', PDict [])]"

section \<open>Facts about the builtins\<close>

lemma and_then_Inr [simp]: "and_then (Inr x) f = f x"
  by (simp add: and_then_def)

lemma and_then_Inl [simp]: "and_then (Inl e) f = Inl e"
  by (simp add: and_then_def)

lemma map_exn_Inr [simp]: "map_exn f (Inr x) = Inr (f x)"
  by (simp add: map_exn_def)

lemma map_exn_Inl [simp]: "map_exn f (Inl e) = Inl e"
  by (simp add: map_exn_def)

declare dict_literal_def [simp]

lemma and_then_eq_Inr: "and_then m f = Inr y \<longleftrightarrow> (\<exists>x. m = Inr x \<and> f x = Inr y)"
  by (cases m) simp_all

lemma map_exn_eq_Inr: "map_exn f m = Inr y \<longleftrightarrow> (\<exists>x. m = Inr x \<and> y = f x)"
  by (cases m) auto

subsection \<open>Rounding to an integer and to two places\<close>

text \<open>Rounding moves a value by at most half a unit and keeps its sign.\<close>

lemma round_half_even_near: "\<bar>of_int (round_half_even q) - q\<bar> \<le> 1 / 2"
  unfolding round_half_even_def Let_def by (auto simp: abs_if) linarith+

lemma round_half_even_nonneg: "0 \<le> q \<Longrightarrow> 0 \<le> round_half_even q"
  unfolding round_half_even_def Let_def by auto



lemma round2_scaled: "round2 q * 100 = of_int (round_half_even (q * 100))"
  by (simp add: round2_def)

lemma round2_near: "\<bar>round2 q - q\<bar> \<le> 1 / 200"
proof -
  have "\<bar>of_int (round_half_even (q * 100)) - q * 100\<bar> \<le> 1 / 2"
    by (rule round_half_even_near)
  then have "\<bar>round2 q * 100 - q * 100\<bar> \<le> 1 / 2"
    by (simp only: round2_scaled)
  then show ?thesis by (simp add: abs_if split: if_splits)
qed

lemma round2_nonneg: "0 \<le> q \<Longrightarrow> 0 \<le> round2 q"
  by (simp add: round2_def round_half_even_nonneg)

lemma round2_two_places: "of_int \<lfloor>round2 q * 100\<rfloor> = round2 q * 100"
  by (simp add: round2_scaled)

lemma round2_zero: "round2 0 = 0"
  by (simp add: round2_def round_half_even_def)

text \<open>\<open>round(x, 2)\<close> of a real float is a real with two places, half a hundredth from \<open>x\<close> at most.\<close>

lemma float_round2_finite:
  assumes "x = Finite q \<or> x = NegZero"
  shows "(\<exists>r. float_round2 x = Finite r \<or> float_round2 x = NegZero)
    \<and> float_value (float_round2 x) = round2 (float_value x)"
proof (cases x)
  case (Finite r)
  then show ?thesis by (simp add: float_round2_def)
next
  case NegZero
  then show ?thesis by (simp add: float_round2_def round2_zero)
qed (use assms in simp_all)

lemma float_round2_places:
  assumes "is_finite x"
  shows "two_places (float_round2 x)"
    and "\<bar>float_value (float_round2 x) - float_value x\<bar> \<le> 1 / 200"
proof -
  from assms have x: "(\<exists>q. x = Finite q) \<or> x = NegZero"
    by (cases x) (simp_all add: is_finite_def is_nan_def is_inf_def)
  then obtain q where "x = Finite q \<or> x = NegZero" by blast
  from float_round2_finite [OF this]
  have shape: "\<exists>r. float_round2 x = Finite r \<or> float_round2 x = NegZero"
    and val: "float_value (float_round2 x) = round2 (float_value x)"
    by simp_all
  from shape have "is_finite (float_round2 x)"
    by (auto simp: is_finite_def is_nan_def is_inf_def)
  then show "two_places (float_round2 x)"
    by (simp add: two_places_def val round2_two_places)
  show "\<bar>float_value (float_round2 x) - float_value x\<bar> \<le> 1 / 200"
    unfolding val by (rule round2_near)
qed

subsection \<open>Powers of two and the binary exponent\<close>










subsection \<open>Rounding to the nearest double\<close>







subsection \<open>The conversion of an \<open>int\<close> and the division of two\<close>









subsection \<open>\<open>max\<close>, \<open>min\<close>, \<open>sum\<close> and indexing\<close>














section \<open>The resource parser\<close>










lemma demo_resources_parse:
  "parse_resources demo_lib demo_fs [''results'', ''go'', ''s02-resources.csv'']
     = Inr demo_resources"
  by code_simp







text \<open>
  Claim C8. For a resource table from which the reader yields no row (a header
  and nothing else), \<open>parse_resources\<close> returns the empty dictionary, with no
  \<open>samples\<close> key and no aggregate, and raises nothing.
\<close>

theorem parse_resources_header_only:
  assumes "open_read fs filepath = Inr text"
    and "csv_DictReader lib text = ([], None)"
  shows "parse_resources lib fs filepath = Inr (PDict [])"
  using assms by (simp add: parse_resources_def load_rows_def aggregate_def)

theorem parse_resources_header_only_witness:
  "open_read header_only_fs [''results'', ''go'', ''s01-resources.csv'']
     = Inr (csv_header @ [CHR 0x0A])
   \<and> csv_DictReader demo_lib (csv_header @ [CHR 0x0A]) = ([], None)
   \<and> parse_resources demo_lib header_only_fs [''results'', ''go'', ''s01-resources.csv'']
     = Inr (PDict [])"
proof -
  have opens: "open_read header_only_fs [''results'', ''go'', ''s01-resources.csv'']
      = Inr (csv_header @ [CHR 0x0A])"
    by (simp add: open_read_def header_only_fs_def)
  have reads: "csv_DictReader demo_lib (csv_header @ [CHR 0x0A]) = ([], None)"
    by code_simp
  show ?thesis
    using parse_resources_header_only [OF opens reads] opens reads by simp
qed

section \<open>The performance parser on documents of the schema\<close>

lemma py_round2_number: "is_number v \<Longrightarrow> py_round2 v = Inr (rounded v)"
  by (cases v) (simp_all add: is_number_def rounded_def)

lemma list_all_lookup:
  "list_all (\<lambda>kv. P (snd kv)) kvs \<Longrightarrow> map_of kvs k = Some v \<Longrightarrow> P v"
  by (metis list_all_iff map_of_SomeD snd_conv)

lemma metric_of_iff:
  "metric_of P m \<longleftrightarrow>
     (\<exists>kvs stats. m = PDict kvs \<and> map_of kvs ''values'' = Some (PDict stats)
        \<and> list_all (\<lambda>kv. P (snd kv)) stats)"
  by (simp add: metric_of_def split: pyval.splits option.splits)

lemma metric_of_shape:
  assumes "metric_of P m"
  obtains kvs stats where "m = PDict kvs" and "map_of kvs ''values'' = Some (PDict stats)"
    and "list_all (\<lambda>kv. P (snd kv)) stats"
  using assms unfolding metric_of_iff by blast

lemma stat_number:
  assumes "metric_of P m" and "P (PInt 0)"
  shows "P (stat m k)"
proof -
  from assms(1) obtain kvs stats where m: "m = PDict kvs"
    and v: "map_of kvs ''values'' = Some (PDict stats)"
    and all: "list_all (\<lambda>kv. P (snd kv)) stats"
    by (rule metric_of_shape)
  show ?thesis
    using assms(2) list_all_lookup [OF all]
    by (simp add: stat_def m v split: option.splits)
qed

lemma get_values:
  assumes "metric_of P m"
  shows "\<exists>d. py_getitem m ''values'' = Inr d \<and> (\<forall>k. py_get d k (PInt 0) = Inr (stat m k))"
proof -
  from assms obtain kvs stats where m: "m = PDict kvs"
    and v: "map_of kvs ''values'' = Some (PDict stats)"
    and all: "list_all (\<lambda>kv. P (snd kv)) stats"
    by (rule metric_of_shape)
  show ?thesis
    by (simp add: m v stat_def split: option.splits)
qed

lemma rounded_stat_values:
  assumes "metric_of is_number m"
  shows "\<exists>d. py_getitem m ''values'' = Inr d
    \<and> (\<forall>k. py_get d k (PInt 0) = Inr (stat m k))
    \<and> (\<forall>k. rounded_stat d k = Inr (rounded (stat m k)))"
proof -
  from get_values [OF assms] obtain d where d: "py_getitem m ''values'' = Inr d"
    and g: "\<forall>k. py_get d k (PInt 0) = Inr (stat m k)"
    by blast
  have "is_number (stat m k)" for k
    using assms by (rule stat_number) (simp add: is_number_def)
  then have "rounded_stat d k = Inr (rounded (stat m k))" for k
    by (simp add: rounded_stat_def g py_round2_number)
  with d g show ?thesis by blast
qed

lemma family_lookup:
  assumes "list_all (\<lambda>kv. metric_of P (snd kv)) metrics"
    and "map_of metrics name = Some m"
  shows "metric_of P m"
  using list_all_lookup [of "metric_of P", OF assms] .

lemma latency_block_valid:
  assumes "list_all (\<lambda>kv. metric_of is_number (snd kv)) metrics"
  shows "latency_block (PDict metrics) result = Inr
    (case map_of metrics ''http_req_duration'' of
       None \<Rightarrow> result
     | Some m \<Rightarrow> AList.update ''latency'' (PDict
         [(''avg'', rounded (stat m ''avg'')),
          (''p50'', rounded (stat m ''med'')),
          (''p90'', rounded (stat m ''p(90)'')),
          (''p95'', rounded (stat m ''p(95)'')),
          (''p99'', rounded (stat m ''p(99)'')),
          (''min'', rounded (stat m ''min'')),
          (''max'', rounded (stat m ''max''))]) result)"
proof (cases "map_of metrics ''http_req_duration''")
  case None
  then show ?thesis by (simp add: latency_block_def)
next
  case (Some m)
  from rounded_stat_values [OF family_lookup [OF assms Some]]
  obtain d where "py_getitem m ''values'' = Inr d"
    and "\<forall>k. rounded_stat d k = Inr (rounded (stat m k))"
    by blast
  with Some show ?thesis by (simp add: latency_block_def)
qed

lemma ttfb_block_valid:
  assumes "list_all (\<lambda>kv. metric_of is_number (snd kv)) metrics"
  shows "ttfb_block (PDict metrics) result = Inr
    (case map_of metrics ''http_req_waiting'' of
       None \<Rightarrow> result
     | Some m \<Rightarrow> AList.update ''ttfb'' (PDict
         [(''avg'', rounded (stat m ''avg'')),
          (''p50'', rounded (stat m ''med'')),
          (''p95'', rounded (stat m ''p(95)'')),
          (''p99'', rounded (stat m ''p(99)''))]) result)"
proof (cases "map_of metrics ''http_req_waiting''")
  case None
  then show ?thesis by (simp add: ttfb_block_def)
next
  case (Some m)
  from rounded_stat_values [OF family_lookup [OF assms Some]]
  obtain d where "py_getitem m ''values'' = Inr d"
    and "\<forall>k. rounded_stat d k = Inr (rounded (stat m k))"
    by blast
  with Some show ?thesis by (simp add: ttfb_block_def)
qed

lemma reqs_block_valid:
  assumes "list_all (\<lambda>kv. metric_of is_number (snd kv)) metrics"
  shows "reqs_block (PDict metrics) result = Inr
    (case map_of metrics ''http_reqs'' of
       None \<Rightarrow> result
     | Some m \<Rightarrow> AList.update ''total_requests'' (stat m ''count'')
         (AList.update ''rps'' (rounded (stat m ''rate'')) result))"
proof (cases "map_of metrics ''http_reqs''")
  case None
  then show ?thesis by (simp add: reqs_block_def)
next
  case (Some m)
  from rounded_stat_values [OF family_lookup [OF assms Some]]
  obtain d where "py_getitem m ''values'' = Inr d"
    and "\<forall>k. py_get d k (PInt 0) = Inr (stat m k)"
    and "\<forall>k. rounded_stat d k = Inr (rounded (stat m k))"
    by blast
  with Some show ?thesis by (simp add: reqs_block_def)
qed

lemma py_mul100_number:
  "is_number v \<Longrightarrow> py_mul100 v = Inr (percent v) \<and> is_number (percent v)"
  by (cases v) (simp_all add: is_number_def percent_def)

lemma success_block_valid:
  assumes "list_all (\<lambda>kv. metric_of is_number (snd kv)) metrics"
  shows "success_block (PDict metrics) result = Inr
    (case map_of metrics ''success_rate'' of
       None \<Rightarrow> result
     | Some m \<Rightarrow> AList.update ''success_rate'' (rounded (percent (stat m ''rate''))) result)"
proof (cases "map_of metrics ''success_rate''")
  case None
  then show ?thesis by (simp add: success_block_def)
next
  case (Some m)
  have m: "metric_of is_number m"
    by (rule family_lookup [OF assms Some])
  from get_values [OF m]
  obtain d where d: "py_getitem m ''values'' = Inr d"
    and g: "\<forall>k. py_get d k (PInt 0) = Inr (stat m k)"
    by blast
  have n: "is_number (stat m ''rate'')"
    using m by (rule stat_number) (simp add: is_number_def)
  from py_mul100_number [OF n] have p: "py_mul100 (stat m ''rate'') = Inr (percent (stat m ''rate''))"
    and pn: "is_number (percent (stat m ''rate''))"
    by simp_all
  show ?thesis
    using Some d g p by (simp add: success_block_def py_round2_number [OF pn])
qed

lemma error_block_valid:
  assumes "list_all (\<lambda>kv. metric_of is_number (snd kv)) metrics"
  shows "error_block (PDict metrics) result = Inr
    (case map_of metrics ''error_count'' of
       None \<Rightarrow> result
     | Some m \<Rightarrow> AList.update ''error_count'' (stat m ''count'') result)"
proof (cases "map_of metrics ''error_count''")
  case None
  then show ?thesis by (simp add: error_block_def)
next
  case (Some m)
  from get_values [OF family_lookup [OF assms Some]]
  obtain d where "py_getitem m ''values'' = Inr d"
    and "\<forall>k. py_get d k (PInt 0) = Inr (stat m k)"
    by blast
  with Some show ?thesis by (simp add: error_block_def)
qed

lemma k6_document_shape:
  assumes "k6_document P data"
  obtains members metrics where "data = PDict members"
    and "map_of members ''metrics'' = Some (PDict metrics)"
    and "list_all (\<lambda>kv. metric_of P (snd kv)) metrics"
proof -
  have "\<exists>members metrics. data = PDict members
      \<and> map_of members ''metrics'' = Some (PDict metrics)
      \<and> list_all (\<lambda>kv. metric_of P (snd kv)) metrics"
    using assms unfolding k6_document_def
    by (cases data) (auto split: option.splits pyval.splits)
  then show thesis using that by blast
qed

lemma k6_result_valid:
  assumes "k6_document is_number data"
  shows "\<exists>metrics r. at_path data [''metrics''] = Some (PDict metrics)
    \<and> list_all (\<lambda>kv. metric_of is_number (snd kv)) metrics
    \<and> k6_result data = Inr (PDict r)
    \<and> map_of r ''latency'' = map_option (\<lambda>m. PDict
         [(''avg'', rounded (stat m ''avg'')),
          (''p50'', rounded (stat m ''med'')),
          (''p90'', rounded (stat m ''p(90)'')),
          (''p95'', rounded (stat m ''p(95)'')),
          (''p99'', rounded (stat m ''p(99)'')),
          (''min'', rounded (stat m ''min'')),
          (''max'', rounded (stat m ''max''))]) (map_of metrics ''http_req_duration'')
    \<and> map_of r ''ttfb'' = map_option (\<lambda>m. PDict
         [(''avg'', rounded (stat m ''avg'')),
          (''p50'', rounded (stat m ''med'')),
          (''p95'', rounded (stat m ''p(95)'')),
          (''p99'', rounded (stat m ''p(99)''))]) (map_of metrics ''http_req_waiting'')
    \<and> map_of r ''rps'' = map_option (\<lambda>m. rounded (stat m ''rate'')) (map_of metrics ''http_reqs'')
    \<and> map_of r ''total_requests''
        = map_option (\<lambda>m. stat m ''count'') (map_of metrics ''http_reqs'')
    \<and> map_of r ''success_rate''
        = map_option (\<lambda>m. rounded (percent (stat m ''rate''))) (map_of metrics ''success_rate'')
    \<and> map_of r ''error_count''
        = map_option (\<lambda>m. stat m ''count'') (map_of metrics ''error_count'')"
proof -
  from assms obtain members metrics where data: "data = PDict members"
    and ms: "map_of members ''metrics'' = Some (PDict metrics)"
    and all: "list_all (\<lambda>kv. metric_of is_number (snd kv)) metrics"
    by (rule k6_document_shape)
  have path: "at_path data [''metrics''] = Some (PDict metrics)"
    by (simp add: data ms)
  define r1 where "r1 = (case map_of metrics ''http_req_duration'' of
       None \<Rightarrow> []
     | Some m \<Rightarrow> AList.update ''latency'' (PDict
         [(''avg'', rounded (stat m ''avg'')),
          (''p50'', rounded (stat m ''med'')),
          (''p90'', rounded (stat m ''p(90)'')),
          (''p95'', rounded (stat m ''p(95)'')),
          (''p99'', rounded (stat m ''p(99)'')),
          (''min'', rounded (stat m ''min'')),
          (''max'', rounded (stat m ''max''))]) [])"
  define r2 where "r2 = (case map_of metrics ''http_req_waiting'' of
       None \<Rightarrow> r1
     | Some m \<Rightarrow> AList.update ''ttfb'' (PDict
         [(''avg'', rounded (stat m ''avg'')),
          (''p50'', rounded (stat m ''med'')),
          (''p95'', rounded (stat m ''p(95)'')),
          (''p99'', rounded (stat m ''p(99)''))]) r1)"
  define r3 where "r3 = (case map_of metrics ''http_reqs'' of
       None \<Rightarrow> r2
     | Some m \<Rightarrow> AList.update ''total_requests'' (stat m ''count'')
         (AList.update ''rps'' (rounded (stat m ''rate'')) r2))"
  define r4 where "r4 = (case map_of metrics ''success_rate'' of
       None \<Rightarrow> r3
     | Some m \<Rightarrow> AList.update ''success_rate'' (rounded (percent (stat m ''rate''))) r3)"
  define r5 where "r5 = (case map_of metrics ''error_count'' of
       None \<Rightarrow> r4
     | Some m \<Rightarrow> AList.update ''error_count'' (stat m ''count'') r4)"
  have res: "k6_result data = Inr (PDict r5)"
    unfolding r5_def r4_def r3_def r2_def r1_def
    by (simp add: k6_result_def data ms latency_block_valid [OF all] ttfb_block_valid [OF all]
        reqs_block_valid [OF all] success_block_valid [OF all] error_block_valid [OF all])
  have m1: "map_of r1 k = (if k = ''latency'' then map_option (\<lambda>m. PDict
         [(''avg'', rounded (stat m ''avg'')),
          (''p50'', rounded (stat m ''med'')),
          (''p90'', rounded (stat m ''p(90)'')),
          (''p95'', rounded (stat m ''p(95)'')),
          (''p99'', rounded (stat m ''p(99)'')),
          (''min'', rounded (stat m ''min'')),
          (''max'', rounded (stat m ''max''))]) (map_of metrics ''http_req_duration'')
       else None)" for k
    by (simp add: r1_def split: option.splits)
  have m2: "map_of r2 k = (if k = ''ttfb'' then map_option (\<lambda>m. PDict
         [(''avg'', rounded (stat m ''avg'')),
          (''p50'', rounded (stat m ''med'')),
          (''p95'', rounded (stat m ''p(95)'')),
          (''p99'', rounded (stat m ''p(99)''))]) (map_of metrics ''http_req_waiting'')
       else map_of r1 k)" for k
    by (simp add: r2_def update_conv m1 split: option.splits)
  have m3: "map_of r3 k =
      (if k = ''total_requests'' then map_option (\<lambda>m. stat m ''count'') (map_of metrics ''http_reqs'')
       else if k = ''rps'' then map_option (\<lambda>m. rounded (stat m ''rate'')) (map_of metrics ''http_reqs'')
       else map_of r2 k)" for k
    by (simp add: r3_def update_conv m2 m1 split: option.splits)
  have m4: "map_of r4 k =
      (if k = ''success_rate''
       then map_option (\<lambda>m. rounded (percent (stat m ''rate''))) (map_of metrics ''success_rate'')
       else map_of r3 k)" for k
    by (simp add: r4_def update_conv m3 m2 m1 split: option.splits)
  have m5: "map_of r5 k =
      (if k = ''error_count''
       then map_option (\<lambda>m. stat m ''count'') (map_of metrics ''error_count'')
       else map_of r4 k)" for k
    by (simp add: r5_def update_conv m4 m3 m2 m1 split: option.splits)
  show ?thesis
    apply (rule exI [of _ metrics])
    apply (rule exI [of _ r5])
    apply (simp add: path all res m5 m4 m3 m2 m1)
    done
qed

lemma at_metric:
  assumes "at_path data [''metrics''] = Some (PDict metrics)"
    and "at_path data (''metrics'' # name # rest) = Some X"
  shows "\<exists>m. map_of metrics name = Some m \<and> at_path m rest = Some X"
  using assms by (cases data) (auto split: option.splits)

lemma stat_at: "at_path m [''values'', k] = Some X \<Longrightarrow> stat m k = X"
  by (simp add: stat_def)

lemma parse_k6_summary_loaded:
  assumes "open_read fs filepath = Inr text" and "json_load lib text = Inr data"
  shows "parse_k6_summary lib fs filepath = k6_result data"
  using assms by (simp add: parse_k6_summary_def)

text \<open>
  Claim C4. For every document of the schema, \<open>parse_k6_summary\<close> returns a
  result, and in it: if the document has \<open>http_req_duration.values.avg = X\<close> then
  \<open>latency.avg\<close> is \<open>round(X, 2)\<close>; if it has \<open>http_reqs.values.rate = R\<close> then
  \<open>rps\<close> is \<open>round(R, 2)\<close>; if it has \<open>http_reqs.values.count = C\<close> then
  \<open>total_requests\<close> is \<open>C\<close>. The concrete run after the theorem is the example of
  the rate \<open>123.456\<close>: \<open>rps\<close> is \<open>123.46\<close>, and the row \<open>RPS\<close> of the printed table
  shows \<open>123.46\<close> in the column \<open>Go\<close>.
\<close>

theorem parse_k6_summary_latency_rps:
  assumes "open_read fs filepath = Inr text"
    and "json_load lib text = Inr data"
    and "k6_document is_number data"
  shows "\<exists>r. parse_k6_summary lib fs filepath = Inr r
    \<and> (\<forall>X. at_path data [''metrics'', ''http_req_duration'', ''values'', ''avg''] = Some X
          \<longrightarrow> (\<exists>Y. py_round2 X = Inr Y \<and> at_path r [''latency'', ''avg''] = Some Y))
    \<and> (\<forall>R. at_path data [''metrics'', ''http_reqs'', ''values'', ''rate''] = Some R
          \<longrightarrow> (\<exists>Y. py_round2 R = Inr Y \<and> at_path r [''rps''] = Some Y))
    \<and> (\<forall>C. at_path data [''metrics'', ''http_reqs'', ''values'', ''count''] = Some C
          \<longrightarrow> at_path r [''total_requests''] = Some C)"
proof -
  from k6_result_valid [OF assms(3)] obtain metrics r
    where path: "at_path data [''metrics''] = Some (PDict metrics)"
      and all: "list_all (\<lambda>kv. metric_of is_number (snd kv)) metrics"
      and res: "k6_result data = Inr (PDict r)"
      and lat: "map_of r ''latency'' = map_option (\<lambda>m. PDict
         [(''avg'', rounded (stat m ''avg'')),
          (''p50'', rounded (stat m ''med'')),
          (''p90'', rounded (stat m ''p(90)'')),
          (''p95'', rounded (stat m ''p(95)'')),
          (''p99'', rounded (stat m ''p(99)'')),
          (''min'', rounded (stat m ''min'')),
          (''max'', rounded (stat m ''max''))]) (map_of metrics ''http_req_duration'')"
      and rps: "map_of r ''rps''
          = map_option (\<lambda>m. rounded (stat m ''rate'')) (map_of metrics ''http_reqs'')"
      and total: "map_of r ''total_requests''
          = map_option (\<lambda>m. stat m ''count'') (map_of metrics ''http_reqs'')"
    by blast
  have parsed: "parse_k6_summary lib fs filepath = Inr (PDict r)"
    using parse_k6_summary_loaded [OF assms(1,2)] res by simp
  have number: "is_number (stat m k)" if "map_of metrics name = Some m" for name m k
    using family_lookup [OF all that] by (rule stat_number) (simp add: is_number_def)
  have a: "\<exists>Y. py_round2 X = Inr Y \<and> at_path (PDict r) [''latency'', ''avg''] = Some Y"
    if "at_path data [''metrics'', ''http_req_duration'', ''values'', ''avg''] = Some X" for X
  proof -
    from at_metric [OF path that] obtain m
      where m: "map_of metrics ''http_req_duration'' = Some m"
        and x: "at_path m [''values'', ''avg''] = Some X"
      by blast
    have "stat m ''avg'' = X" using x by (rule stat_at)
    with number [OF m, of "''avg''"] have "py_round2 X = Inr (rounded X)"
      by (simp add: py_round2_number)
    moreover have "at_path (PDict r) [''latency'', ''avg''] = Some (rounded X)"
      using \<open>stat m ''avg'' = X\<close> by (simp add: lat m)
    ultimately show ?thesis by blast
  qed
  have b: "\<exists>Y. py_round2 R = Inr Y \<and> at_path (PDict r) [''rps''] = Some Y"
    if "at_path data [''metrics'', ''http_reqs'', ''values'', ''rate''] = Some R" for R
  proof -
    from at_metric [OF path that] obtain m
      where m: "map_of metrics ''http_reqs'' = Some m"
        and x: "at_path m [''values'', ''rate''] = Some R"
      by blast
    have "stat m ''rate'' = R" using x by (rule stat_at)
    with number [OF m, of "''rate''"] have "py_round2 R = Inr (rounded R)"
      by (simp add: py_round2_number)
    moreover have "at_path (PDict r) [''rps''] = Some (rounded R)"
      using \<open>stat m ''rate'' = R\<close> by (simp add: rps m)
    ultimately show ?thesis by blast
  qed
  have c: "at_path (PDict r) [''total_requests''] = Some C"
    if "at_path data [''metrics'', ''http_reqs'', ''values'', ''count''] = Some C" for C
  proof -
    from at_metric [OF path that] obtain m
      where m: "map_of metrics ''http_reqs'' = Some m"
        and x: "at_path m [''values'', ''count''] = Some C"
      by blast
    have "stat m ''count'' = C" using x by (rule stat_at)
    then show ?thesis by (simp add: total m)
  qed
  from parsed a b c show ?thesis by blast
qed

text \<open>The example document \<open>go/s01-summary.json\<close>.\<close>

lemma demo_k6_opens:
  "open_read demo_fs [''results'', ''go'', ''s01-summary.json''] = Inr k6_text"
  by (simp add: open_read_def demo_fs_def)

lemma demo_k6_loads: "json_load demo_lib k6_text = Inr k6_doc"
  by (simp add: demo_lib_def)

lemma demo_k6_numbers: "k6_document is_number k6_doc"
  by (simp add: k6_document_def k6_doc_def metric_of_def is_number_def)

lemma demo_k6_nonneg: "k6_document nonneg_number k6_doc"
  by code_simp

text \<open>The run of \<open>main\<close> on the example directory, evaluated.\<close>

lemma demo_k6_parses:
  "parse_k6_summary demo_lib demo_fs [''results'', ''go'', ''s01-summary.json'']
     = Inr demo_performance"
  by code_simp

lemma demo_build: "gateway_loop demo_lib demo_fs [''results''] gateways [] = Inr demo_summary"
  by code_simp

lemma demo_run_outcome:
  "fst (main demo_lib [''parse.py'', ''results''] demo_fs) = Returned"
  by code_simp

lemma demo_run_rps_row:
  "fst (snd (main demo_lib [''parse.py'', ''results''] demo_fs)) ! 6
     = ''RPS                                123.46               -               -''"
  by code_simp

lemma demo_run_file:
  "snd (snd (main demo_lib [''parse.py'', ''results''] demo_fs)) [''results'', ''summary.json'']
     = Some (File (json_dump demo_lib (PDict demo_summary)))"
  by code_simp

theorem parse_k6_summary_latency_rps_witness:
  "open_read demo_fs [''results'', ''go'', ''s01-summary.json''] = Inr k6_text
   \<and> json_load demo_lib k6_text = Inr k6_doc
   \<and> k6_document is_number k6_doc
   \<and> at_path k6_doc [''metrics'', ''http_req_duration'', ''values'', ''avg'']
       = Some (PFloat (nearest_double (2675 / 1000)))
   \<and> nearest_double (2675 / 1000) = Finite (3011782250804019 / 1125899906842624)
   \<and> at_path k6_doc [''metrics'', ''http_reqs'', ''values'', ''rate'']
       = Some (PFloat (nearest_double (123456 / 1000)))
   \<and> nearest_double (123456 / 1000) = Finite (8687443681197687 / 70368744177664)
   \<and> at_path k6_doc [''metrics'', ''http_reqs'', ''values'', ''count''] = Some (PInt 1000)
   \<and> parse_k6_summary demo_lib demo_fs [''results'', ''go'', ''s01-summary.json'']
       = Inr demo_performance
   \<and> py_round2 (PFloat (nearest_double (2675 / 1000))) = Inr (PFloat (Finite (267 / 100)))
   \<and> at_path demo_performance [''latency'', ''avg''] = Some (PFloat (Finite (267 / 100)))
   \<and> py_round2 (PFloat (nearest_double (123456 / 1000))) = Inr (PFloat (Finite (12346 / 100)))
   \<and> at_path demo_performance [''rps''] = Some (PFloat (Finite (12346 / 100)))
   \<and> at_path demo_performance [''total_requests''] = Some (PInt 1000)
   \<and> fst (snd (main demo_lib [''parse.py'', ''results''] demo_fs)) ! 6
       = ''RPS                                123.46               -               -''
   \<and> snd (snd (main demo_lib [''parse.py'', ''results''] demo_fs)) [''results'', ''summary.json'']
       = Some (File (json_dump demo_lib (PDict demo_summary)))
   \<and> at_path (PDict demo_summary) [''go'', ''s01'', ''performance''] = Some demo_performance"
proof -
  have avg: "at_path k6_doc [''metrics'', ''http_req_duration'', ''values'', ''avg'']
      = Some (PFloat (nearest_double (2675 / 1000)))"
    by (simp add: k6_doc_def)
  have avg_double: "nearest_double (2675 / 1000) = Finite (3011782250804019 / 1125899906842624)"
    by code_simp
  have rate: "at_path k6_doc [''metrics'', ''http_reqs'', ''values'', ''rate'']
      = Some (PFloat (nearest_double (123456 / 1000)))"
    by (simp add: k6_doc_def)
  have rate_double: "nearest_double (123456 / 1000) = Finite (8687443681197687 / 70368744177664)"
    by code_simp
  have count: "at_path k6_doc [''metrics'', ''http_reqs'', ''values'', ''count'']
      = Some (PInt 1000)"
    by (simp add: k6_doc_def)
  have ravg: "py_round2 (PFloat (nearest_double (2675 / 1000))) = Inr (PFloat (Finite (267 / 100)))"
    by code_simp
  have rrate: "py_round2 (PFloat (nearest_double (123456 / 1000)))
      = Inr (PFloat (Finite (12346 / 100)))"
    by code_simp
  from parse_k6_summary_latency_rps [OF demo_k6_opens demo_k6_loads demo_k6_numbers]
  obtain r where p: "parse_k6_summary demo_lib demo_fs [''results'', ''go'', ''s01-summary.json'']
      = Inr r"
    and a0: "\<And>X. at_path k6_doc [''metrics'', ''http_req_duration'', ''values'', ''avg'']
        = Some X
      \<Longrightarrow> \<exists>Y. py_round2 X = Inr Y \<and> at_path r [''latency'', ''avg''] = Some Y"
    and b0: "\<And>R. at_path k6_doc [''metrics'', ''http_reqs'', ''values'', ''rate''] = Some R
      \<Longrightarrow> \<exists>Y. py_round2 R = Inr Y \<and> at_path r [''rps''] = Some Y"
    and c0: "\<And>C. at_path k6_doc [''metrics'', ''http_reqs'', ''values'', ''count''] = Some C
      \<Longrightarrow> at_path r [''total_requests''] = Some C"
    by blast
  from p have r: "r = demo_performance"
    unfolding demo_k6_parses by simp
  from a0 [OF avg] have a: "at_path demo_performance [''latency'', ''avg'']
      = Some (PFloat (Finite (267 / 100)))"
    unfolding r ravg by simp
  from b0 [OF rate] have b: "at_path demo_performance [''rps'']
      = Some (PFloat (Finite (12346 / 100)))"
    unfolding r rrate by simp
  from c0 [OF count] have c: "at_path demo_performance [''total_requests''] = Some (PInt 1000)"
    unfolding r .
  have e: "at_path (PDict demo_summary) [''go'', ''s01'', ''performance''] = Some demo_performance"
    by (simp add: demo_summary_def)
  show ?thesis
    by (intro conjI demo_k6_opens demo_k6_loads demo_k6_numbers avg avg_double rate rate_double
        count demo_k6_parses ravg a rrate b c demo_run_rps_row demo_run_file e)
qed

text \<open>
  Claim C6, as the specification states it, does not hold. The parser rounds
  what the document holds and checks no sign, so a negative statistic gives a
  negative value in the latency block. And the TTFB block has the four fields
  \<open>avg, p50, p95, p99\<close> only: the statistics \<open>p(90)\<close>, \<open>min\<close> and \<open>max\<close> of
  \<open>http_req_waiting\<close> are in the document and not in the result.
\<close>

theorem negative_latency_counterexample:
  "parse_k6_summary demo_lib negative_fs [''results'', ''go'', ''s01-summary.json'']
     = Inr (PDict
        [(''latency'', PDict
           [(''avg'', PFloat (Finite (- (3 / 2)))), (''p50'', PInt 0), (''p90'', PInt 0),
            (''p95'', PInt 0), (''p99'', PInt 0), (''min'', PInt 0), (''max'', PInt 0)]),
         (''ttfb'', PDict
           [(''avg'', PFloat (Finite (3 / 2))), (''p50'', PFloat (Finite 1)),
            (''p95'', PFloat (Finite (5 / 2))), (''p99'', PFloat (Finite 3))])])
   \<and> \<not> nonneg_2dp (PFloat (Finite (- (3 / 2))))
   \<and> at_path negative_doc [''metrics'', ''http_req_waiting'', ''values'', ''p(90)'']
       = Some (PFloat (Finite 2))
   \<and> at_path negative_doc [''metrics'', ''http_req_waiting'', ''values'', ''min'']
       = Some (PFloat (Finite (1 / 2)))
   \<and> at_path negative_doc [''metrics'', ''http_req_waiting'', ''values'', ''max'']
       = Some (PFloat (Finite 4))"
proof -
  have "parse_k6_summary demo_lib negative_fs [''results'', ''go'', ''s01-summary.json'']
     = Inr (PDict
        [(''latency'', PDict
           [(''avg'', PFloat (Finite (- (3 / 2)))), (''p50'', PInt 0), (''p90'', PInt 0),
            (''p95'', PInt 0), (''p99'', PInt 0), (''min'', PInt 0), (''max'', PInt 0)]),
         (''ttfb'', PDict
           [(''avg'', PFloat (Finite (3 / 2))), (''p50'', PFloat (Finite 1)),
            (''p95'', PFloat (Finite (5 / 2))), (''p99'', PFloat (Finite 3))])])"
    by code_simp
  moreover have "\<not> nonneg_2dp (PFloat (Finite (- (3 / 2))))"
    by (simp add: nonneg_2dp_def)
  moreover have
    "at_path negative_doc [''metrics'', ''http_req_waiting'', ''values'', ''p(90)'']
       = Some (PFloat (Finite 2))"
    "at_path negative_doc [''metrics'', ''http_req_waiting'', ''values'', ''min'']
       = Some (PFloat (Finite (1 / 2)))"
    "at_path negative_doc [''metrics'', ''http_req_waiting'', ''values'', ''max'']
       = Some (PFloat (Finite 4))"
    by code_simp+
  ultimately show ?thesis by (intro conjI)
qed

lemma metric_of_mono:
  assumes "metric_of P m" and "\<And>v. P v \<Longrightarrow> Q v"
  shows "metric_of Q m"
proof -
  from assms(1) obtain kvs stats where m: "m = PDict kvs"
    and v: "map_of kvs ''values'' = Some (PDict stats)"
    and all: "list_all (\<lambda>kv. P (snd kv)) stats"
    by (rule metric_of_shape)
  from all assms(2) have "list_all (\<lambda>kv. Q (snd kv)) stats"
    by (simp add: list_all_iff)
  then show ?thesis by (simp add: metric_of_def m v)
qed

lemma k6_document_mono:
  assumes "k6_document P data" and "\<And>v. P v \<Longrightarrow> Q v"
  shows "k6_document Q data"
proof -
  from assms(1) obtain members metrics where data: "data = PDict members"
    and ms: "map_of members ''metrics'' = Some (PDict metrics)"
    and all: "list_all (\<lambda>kv. metric_of P (snd kv)) metrics"
    by (rule k6_document_shape)
  have "metric_of Q m" if "metric_of P m" for m
    using that assms(2) by (rule metric_of_mono)
  then have "list_all (\<lambda>kv. metric_of Q (snd kv)) metrics"
    using all by (simp add: list_all_iff)
  then show ?thesis by (simp add: k6_document_def data ms)
qed

lemma nonneg_is_number: "nonneg_number v \<Longrightarrow> is_number v"
  by (cases v) (simp_all add: nonneg_number_def is_number_def)

lemma rounded_nonneg_2dp: "nonneg_number v \<Longrightarrow> nonneg_2dp (rounded v)"
proof (cases v)
  case (PFloat x)
  assume "nonneg_number v"
  with PFloat have fin: "is_finite x" and pos: "0 \<le> float_value x"
    by (simp_all add: nonneg_number_def)
  from fin have "(\<exists>q. x = Finite q) \<or> x = NegZero"
    by (cases x) (simp_all add: is_finite_def is_nan_def is_inf_def)
  then obtain q where "x = Finite q \<or> x = NegZero" by blast
  from float_round2_finite [OF this]
  have "float_value (float_round2 x) = round2 (float_value x)" by simp
  with pos have "0 \<le> float_value (float_round2 x)" by (simp add: round2_nonneg)
  with float_round2_places(1) [OF fin] show ?thesis
    by (simp add: PFloat rounded_def nonneg_2dp_def)
qed (simp_all add: nonneg_number_def nonneg_2dp_def rounded_def)

text \<open>
  Claim C6, amended. For a document of the schema whose statistics are numbers
  that are reals and not negative, the latency block has the seven fields
  \<open>avg, p50, p90, p95, p99, min, max\<close> and the TTFB block the four fields
  \<open>avg, p50, p95, p99\<close>; every value in them is not negative and has at most two
  decimal places; and \<open>success_rate\<close> is \<open>round(x * 100, 2)\<close> for the rate \<open>x\<close> of
  the document, an \<open>int\<close> or a float, the product of a float being the float
  product.
\<close>

theorem k6_blocks_two_places:
  assumes "open_read fs filepath = Inr text"
    and "json_load lib text = Inr data"
    and "k6_document nonneg_number data"
  shows "\<exists>r. parse_k6_summary lib fs filepath = Inr r
    \<and> (\<forall>l. at_path r [''latency''] = Some l \<longrightarrow>
         (\<exists>kvs. l = PDict kvs
            \<and> map fst kvs = [''avg'', ''p50'', ''p90'', ''p95'', ''p99'', ''min'', ''max'']
            \<and> list_all (\<lambda>kv. nonneg_2dp (snd kv)) kvs))
    \<and> (\<forall>t. at_path r [''ttfb''] = Some t \<longrightarrow>
         (\<exists>kvs. t = PDict kvs
            \<and> map fst kvs = [''avg'', ''p50'', ''p95'', ''p99'']
            \<and> list_all (\<lambda>kv. nonneg_2dp (snd kv)) kvs))
    \<and> (\<forall>x. at_path data [''metrics'', ''success_rate'', ''values'', ''rate''] = Some x
          \<longrightarrow> (\<exists>p y. py_mul100 x = Inr p \<and> py_round2 p = Inr y
                \<and> at_path r [''success_rate''] = Some y))"
proof -
  have numbers: "k6_document is_number data"
    using assms(3) nonneg_is_number by (rule k6_document_mono)
  from k6_result_valid [OF numbers] obtain metrics r
    where path: "at_path data [''metrics''] = Some (PDict metrics)"
      and nums: "list_all (\<lambda>kv. metric_of is_number (snd kv)) metrics"
      and res: "k6_result data = Inr (PDict r)"
      and lat: "map_of r ''latency'' = map_option (\<lambda>m. PDict
         [(''avg'', rounded (stat m ''avg'')),
          (''p50'', rounded (stat m ''med'')),
          (''p90'', rounded (stat m ''p(90)'')),
          (''p95'', rounded (stat m ''p(95)'')),
          (''p99'', rounded (stat m ''p(99)'')),
          (''min'', rounded (stat m ''min'')),
          (''max'', rounded (stat m ''max''))]) (map_of metrics ''http_req_duration'')"
      and ttfb: "map_of r ''ttfb'' = map_option (\<lambda>m. PDict
         [(''avg'', rounded (stat m ''avg'')),
          (''p50'', rounded (stat m ''med'')),
          (''p95'', rounded (stat m ''p(95)'')),
          (''p99'', rounded (stat m ''p(99)''))]) (map_of metrics ''http_req_waiting'')"
      and rate: "map_of r ''success_rate''
        = map_option (\<lambda>m. rounded (percent (stat m ''rate''))) (map_of metrics ''success_rate'')"
    by blast
  from assms(3) obtain members metrics' where data: "data = PDict members"
    and ms: "map_of members ''metrics'' = Some (PDict metrics')"
    and all': "list_all (\<lambda>kv. metric_of nonneg_number (snd kv)) metrics'"
    by (rule k6_document_shape)
  have "metrics' = metrics" using path by (simp add: data ms)
  with all' have all: "list_all (\<lambda>kv. metric_of nonneg_number (snd kv)) metrics" by simp
  have parsed: "parse_k6_summary lib fs filepath = Inr (PDict r)"
    using parse_k6_summary_loaded [OF assms(1,2)] res by simp
  have good: "nonneg_2dp (rounded (stat m k))" if "map_of metrics name = Some m" for name m k
  proof -
    have "nonneg_number (stat m k)"
      using family_lookup [OF all that] by (rule stat_number) (simp add: nonneg_number_def)
    then show ?thesis by (rule rounded_nonneg_2dp)
  qed
  have a: "\<exists>kvs. l = PDict kvs
      \<and> map fst kvs = [''avg'', ''p50'', ''p90'', ''p95'', ''p99'', ''min'', ''max'']
      \<and> list_all (\<lambda>kv. nonneg_2dp (snd kv)) kvs"
    if "at_path (PDict r) [''latency''] = Some l" for l
  proof -
    from that have found: "map_of r ''latency'' = Some l"
      by (simp split: option.splits)
    show ?thesis
    proof (cases "map_of metrics ''http_req_duration''")
      case None
      with lat found show ?thesis by simp
    next
      case (Some m)
      with lat found have l: "l = PDict
         [(''avg'', rounded (stat m ''avg'')),
          (''p50'', rounded (stat m ''med'')),
          (''p90'', rounded (stat m ''p(90)'')),
          (''p95'', rounded (stat m ''p(95)'')),
          (''p99'', rounded (stat m ''p(99)'')),
          (''min'', rounded (stat m ''min'')),
          (''max'', rounded (stat m ''max''))]"
        by simp
      show ?thesis
        unfolding l by (intro exI conjI, rule refl) (simp_all add: good [OF Some])
    qed
  qed
  have b: "\<exists>kvs. t = PDict kvs
      \<and> map fst kvs = [''avg'', ''p50'', ''p95'', ''p99'']
      \<and> list_all (\<lambda>kv. nonneg_2dp (snd kv)) kvs"
    if "at_path (PDict r) [''ttfb''] = Some t" for t
  proof -
    from that have found: "map_of r ''ttfb'' = Some t"
      by (simp split: option.splits)
    show ?thesis
    proof (cases "map_of metrics ''http_req_waiting''")
      case None
      with ttfb found show ?thesis by simp
    next
      case (Some m)
      with ttfb found have t: "t = PDict
         [(''avg'', rounded (stat m ''avg'')),
          (''p50'', rounded (stat m ''med'')),
          (''p95'', rounded (stat m ''p(95)'')),
          (''p99'', rounded (stat m ''p(99)''))]"
        by simp
      show ?thesis
        unfolding t by (intro exI conjI, rule refl) (simp_all add: good [OF Some])
    qed
  qed
  have c: "\<exists>p y. py_mul100 x = Inr p \<and> py_round2 p = Inr y
      \<and> at_path (PDict r) [''success_rate''] = Some y"
    if "at_path data [''metrics'', ''success_rate'', ''values'', ''rate''] = Some x" for x
  proof -
    from at_metric [OF path that] obtain m
      where m: "map_of metrics ''success_rate'' = Some m"
        and x: "at_path m [''values'', ''rate''] = Some x"
      by blast
    have s: "stat m ''rate'' = x" using x by (rule stat_at)
    have "is_number (stat m ''rate'')"
      using family_lookup [OF nums m] by (rule stat_number) (simp add: is_number_def)
    then have n: "is_number x" by (simp only: s)
    from py_mul100_number [OF n] have p: "py_mul100 x = Inr (percent x)"
      and pn: "is_number (percent x)"
      by simp_all
    have y: "py_round2 (percent x) = Inr (rounded (percent x))"
      using pn by (rule py_round2_number)
    have "at_path (PDict r) [''success_rate''] = Some (rounded (percent x))"
      by (simp add: rate m s)
    with p y show ?thesis by blast
  qed
  show ?thesis
  proof (rule exI [of _ "PDict r"], intro conjI allI impI)
    show "parse_k6_summary lib fs filepath = Inr (PDict r)" by (rule parsed)
  next
    fix l assume "at_path (PDict r) [''latency''] = Some l"
    then show "\<exists>kvs. l = PDict kvs
      \<and> map fst kvs = [''avg'', ''p50'', ''p90'', ''p95'', ''p99'', ''min'', ''max'']
      \<and> list_all (\<lambda>kv. nonneg_2dp (snd kv)) kvs"
      by (rule a)
  next
    fix t assume "at_path (PDict r) [''ttfb''] = Some t"
    then show "\<exists>kvs. t = PDict kvs
      \<and> map fst kvs = [''avg'', ''p50'', ''p95'', ''p99'']
      \<and> list_all (\<lambda>kv. nonneg_2dp (snd kv)) kvs"
      by (rule b)
  next
    fix x
    assume "at_path data [''metrics'', ''success_rate'', ''values'', ''rate''] = Some x"
    then show "\<exists>p y. py_mul100 x = Inr p \<and> py_round2 p = Inr y
      \<and> at_path (PDict r) [''success_rate''] = Some y"
      by (rule c)
  qed
qed

theorem k6_blocks_two_places_witness:
  "open_read demo_fs [''results'', ''go'', ''s01-summary.json''] = Inr k6_text
   \<and> json_load demo_lib k6_text = Inr k6_doc
   \<and> k6_document nonneg_number k6_doc
   \<and> at_path k6_doc [''metrics'', ''success_rate'', ''values'', ''rate'']
       = Some (PFloat (nearest_double (90025 / 100000)))
   \<and> nearest_double (90025 / 100000) = Finite (4054365564540289 / 4503599627370496)
   \<and> py_mul100 (PFloat (nearest_double (90025 / 100000)))
       = Inr (PFloat (Finite (3167473097297101 / 35184372088832)))
   \<and> 4054365564540289 / 4503599627370496 * 100 < (90025 / 1000 :: rat)
   \<and> (90025 / 1000 :: rat) < 3167473097297101 / 35184372088832
   \<and> py_round2 (PFloat (Finite (3167473097297101 / 35184372088832)))
       = Inr (PFloat (Finite (9003 / 100)))
   \<and> parse_k6_summary demo_lib demo_fs [''results'', ''go'', ''s01-summary.json'']
       = Inr demo_performance
   \<and> (\<exists>kvs. at_path demo_performance [''latency''] = Some (PDict kvs)
        \<and> map fst kvs = [''avg'', ''p50'', ''p90'', ''p95'', ''p99'', ''min'', ''max'']
        \<and> list_all (\<lambda>kv. nonneg_2dp (snd kv)) kvs)
   \<and> (\<exists>kvs. at_path demo_performance [''ttfb''] = Some (PDict kvs)
        \<and> map fst kvs = [''avg'', ''p50'', ''p95'', ''p99'']
        \<and> list_all (\<lambda>kv. nonneg_2dp (snd kv)) kvs)
   \<and> at_path demo_performance [''success_rate''] = Some (PFloat (Finite (9003 / 100)))"
proof -
  have rate: "at_path k6_doc [''metrics'', ''success_rate'', ''values'', ''rate'']
      = Some (PFloat (nearest_double (90025 / 100000)))"
    by (simp add: k6_doc_def)
  have double: "nearest_double (90025 / 100000) = Finite (4054365564540289 / 4503599627370496)"
    by code_simp
  have pct: "py_mul100 (PFloat (nearest_double (90025 / 100000)))
      = Inr (PFloat (Finite (3167473097297101 / 35184372088832)))"
    by code_simp
  have below: "4054365564540289 / 4503599627370496 * 100 < (90025 / 1000 :: rat)"
    by simp
  have above: "(90025 / 1000 :: rat) < 3167473097297101 / 35184372088832"
    by simp
  have rnd: "py_round2 (PFloat (Finite (3167473097297101 / 35184372088832)))
      = Inr (PFloat (Finite (9003 / 100)))"
    by code_simp
  from k6_blocks_two_places [OF demo_k6_opens demo_k6_loads demo_k6_nonneg]
  obtain r where p: "parse_k6_summary demo_lib demo_fs [''results'', ''go'', ''s01-summary.json'']
      = Inr r"
    and l0: "\<And>l. at_path r [''latency''] = Some l \<Longrightarrow>
      \<exists>kvs. l = PDict kvs
        \<and> map fst kvs = [''avg'', ''p50'', ''p90'', ''p95'', ''p99'', ''min'', ''max'']
        \<and> list_all (\<lambda>kv. nonneg_2dp (snd kv)) kvs"
    and t0: "\<And>t. at_path r [''ttfb''] = Some t \<Longrightarrow>
      \<exists>kvs. t = PDict kvs
        \<and> map fst kvs = [''avg'', ''p50'', ''p95'', ''p99'']
        \<and> list_all (\<lambda>kv. nonneg_2dp (snd kv)) kvs"
    and s0: "\<And>x. at_path k6_doc [''metrics'', ''success_rate'', ''values'', ''rate''] = Some x
      \<Longrightarrow> \<exists>p y. py_mul100 x = Inr p \<and> py_round2 p = Inr y
            \<and> at_path r [''success_rate''] = Some y"
    by blast
  from p have r: "r = demo_performance"
    unfolding demo_k6_parses by simp
  note l = l0 [unfolded r] and t = t0 [unfolded r]
  from s0 [OF rate] obtain p' y
    where "py_mul100 (PFloat (nearest_double (90025 / 100000))) = Inr p'"
      and "py_round2 p' = Inr y"
      and "at_path r [''success_rate''] = Some y"
    by blast
  then have c: "at_path demo_performance [''success_rate''] = Some (PFloat (Finite (9003 / 100)))"
    unfolding r pct using rnd by simp
  have lat: "at_path demo_performance [''latency''] = Some (PDict
        [(''avg'', PFloat (Finite (267 / 100))), (''p50'', PFloat (Finite (105 / 10))),
         (''p90'', PInt 20), (''p95'', PFloat (Finite 25)), (''p99'', PFloat (Finite 40)),
         (''min'', PFloat (Finite (125 / 100))), (''max'', PFloat (Finite 100))])"
    by (simp add: demo_performance_def)
  have ttfb: "at_path demo_performance [''ttfb''] = Some (PDict
        [(''avg'', PFloat (Finite (1111 / 100))), (''p50'', PFloat (Finite (95 / 10))),
         (''p95'', PFloat (Finite 24)), (''p99'', PFloat (Finite (395 / 10)))])"
    by (simp add: demo_performance_def)
  from l [OF lat] have a: "\<exists>kvs. at_path demo_performance [''latency''] = Some (PDict kvs)
        \<and> map fst kvs = [''avg'', ''p50'', ''p90'', ''p95'', ''p99'', ''min'', ''max'']
        \<and> list_all (\<lambda>kv. nonneg_2dp (snd kv)) kvs"
    unfolding lat by simp
  from t [OF ttfb] have b: "\<exists>kvs. at_path demo_performance [''ttfb''] = Some (PDict kvs)
        \<and> map fst kvs = [''avg'', ''p50'', ''p95'', ''p99'']
        \<and> list_all (\<lambda>kv. nonneg_2dp (snd kv)) kvs"
    unfolding ttfb by simp
  show ?thesis
    by (intro conjI demo_k6_opens demo_k6_loads demo_k6_nonneg rate double pct below above rnd
        demo_k6_parses a b c)
qed

section \<open>The whole run\<close>

subsection \<open>A malformed summary ends the run\<close>

lemma scenario_entry_fails:
  assumes "path_exists fs (gw_dir @ [scenario @ ''-summary.json''])"
    and "parse_k6_summary lib fs (gw_dir @ [scenario @ ''-summary.json'']) = Inl e"
  shows "scenario_entry lib fs gw_dir scenario = Inl e"
  using assms by (simp add: scenario_entry_def Let_def)

lemma scenario_loop_fails:
  assumes "scenario \<in> set scs"
    and "scenario_entry lib fs gw_dir scenario = Inl e"
  shows "\<exists>e'. scenario_loop lib fs gw_dir scs acc = Inl e'"
  using assms(1)
proof (induction scs arbitrary: acc)
  case Nil
  then show ?case by simp
next
  case (Cons s rest)
  show ?case
  proof (cases "scenario_entry lib fs gw_dir s")
    case (Inl e0)
    then show ?thesis by simp
  next
    case (Inr entry)
    with assms(2) have "s \<noteq> scenario" by auto
    with Cons.prems have "scenario \<in> set rest" by simp
    from Cons.IH [OF this] Inr show ?thesis by simp
  qed
qed

lemma gateway_loop_fails:
  assumes "gw \<in> set gws"
    and "path_exists fs (results_dir @ [gw])"
    and "\<And>acc. \<exists>e. scenario_loop lib fs (results_dir @ [gw]) scenarios acc = Inl e"
  shows "\<exists>e'. gateway_loop lib fs results_dir gws summary = Inl e'"
  using assms(1)
proof (induction gws arbitrary: summary)
  case Nil
  then show ?case by simp
next
  case (Cons g rest)
  show ?case
  proof (cases "g = gw")
    case True
    from assms(3) [of "[]"] obtain e where "scenario_loop lib fs (results_dir @ [gw]) scenarios [] = Inl e"
      by blast
    with True assms(2) show ?thesis by (simp add: Let_def)
  next
    case False
    with Cons.prems have "gw \<in> set rest" by simp
    from Cons.IH [OF this] show ?thesis
      by (cases "scenario_loop lib fs (results_dir @ [g]) scenarios []") (simp_all add: Let_def)
  qed
qed

lemma main_build_fails:
  assumes "2 \<le> length argv"
    and "gateway_loop lib fs (path_of_str lib (argv ! 1)) gateways [] = Inl e"
  shows "main lib argv fs = (Uncaught e, [], fs)"
  using assms by (simp add: main_def Let_def)

text \<open>
  Claim C1. If a summary file \<open><scenario>-summary.json\<close> of one of the gateways
  exists (in a gateway directory that exists) and \<open>json.load\<close> refuses its text,
  the run ends with an uncaught exception, so with a non-zero exit status,
  before anything is printed or written: the file system is the one the run
  started with, so \<open>summary.json\<close> is not created, or is left as it was.
\<close>

theorem malformed_summary_aborts:
  assumes "2 \<le> length argv"
    and "gw \<in> set gateways"
    and "scenario \<in> set scenarios"
    and "path_exists fs (path_of_str lib (argv ! 1) @ [gw])"
    and "open_read fs (path_of_str lib (argv ! 1) @ [gw, scenario @ ''-summary.json''])
           = Inr text"
    and "json_load lib text = Inl e"
  shows "\<exists>e'. main lib argv fs = (Uncaught e', [], fs) \<and> exit_status (Uncaught e') \<noteq> 0"
proof -
  let ?dir = "path_of_str lib (argv ! 1) @ [gw]"
  let ?file = "?dir @ [scenario @ ''-summary.json'']"
  from assms(5) have opened: "open_read fs ?file = Inr text"
    by simp
  then have "path_exists fs ?file"
    by (simp add: path_exists_def open_read_def split: option.splits)
  moreover have "parse_k6_summary lib fs ?file = Inl e"
    using opened assms(6) by (simp add: parse_k6_summary_def)
  ultimately have "scenario_entry lib fs ?dir scenario = Inl e"
    by (rule scenario_entry_fails)
  with assms(3) have "\<exists>e'. scenario_loop lib fs ?dir scenarios acc = Inl e'" for acc
    by (rule scenario_loop_fails)
  with assms(2,4) obtain e'
    where "gateway_loop lib fs (path_of_str lib (argv ! 1)) gateways [] = Inl e'"
    using gateway_loop_fails by blast
  with assms(1) have "main lib argv fs = (Uncaught e', [], fs)"
    by (rule main_build_fails)
  then show ?thesis by simp
qed

text \<open>The example: \<open>go/s02-summary.json\<close> holds a broken document.\<close>

lemma broken_opens:
  "open_read broken_fs (path_of_str demo_lib ([''parse.py'', ''results''] ! 1)
      @ [''go'', ''s02'' @ ''-summary.json'']) = Inr broken_text"
  by (simp add: open_read_def broken_fs_def demo_lib_def)

lemma broken_loads: "json_load demo_lib broken_text = Inl JSONDecodeError"
  by (simp add: demo_lib_def broken_text_def k6_text_def negative_text_def)

lemma broken_run_outcome:
  "fst (main demo_lib [''parse.py'', ''results''] broken_fs) = Uncaught JSONDecodeError"
  by code_simp

theorem malformed_summary_aborts_witness:
  "2 \<le> length [''parse.py'', ''results'']
   \<and> ''go'' \<in> set gateways
   \<and> ''s02'' \<in> set scenarios
   \<and> path_exists broken_fs (path_of_str demo_lib ([''parse.py'', ''results''] ! 1) @ [''go''])
   \<and> open_read broken_fs (path_of_str demo_lib ([''parse.py'', ''results''] ! 1)
         @ [''go'', ''s02'' @ ''-summary.json'']) = Inr broken_text
   \<and> json_load demo_lib broken_text = Inl JSONDecodeError
   \<and> (\<exists>e'. main demo_lib [''parse.py'', ''results''] broken_fs = (Uncaught e', [], broken_fs)
        \<and> exit_status (Uncaught e') \<noteq> 0)
   \<and> fst (main demo_lib [''parse.py'', ''results''] broken_fs) = Uncaught JSONDecodeError
   \<and> broken_fs [''results'', ''summary.json''] = None"
proof -
  have len: "2 \<le> length [''parse.py'', ''results'']" by simp
  have gw: "''go'' \<in> set gateways" by (simp add: gateways_def)
  have sc: "''s02'' \<in> set scenarios" by code_simp
  have dir: "path_exists broken_fs (path_of_str demo_lib ([''parse.py'', ''results''] ! 1) @ [''go''])"
    by (simp add: path_exists_def broken_fs_def demo_fs_def demo_lib_def)
  have none: "broken_fs [''results'', ''summary.json''] = None"
    by (simp add: broken_fs_def demo_fs_def)
  show ?thesis
    using malformed_summary_aborts [OF len gw sc dir broken_opens broken_loads]
    by (intro conjI len gw sc dir broken_opens broken_loads broken_run_outcome none)
qed

subsection \<open>The usage error\<close>

text \<open>
  Claim C9, as the specification states it, does not hold: the status of the
  usage error is not distinct from the status of a run that a malformed file
  ended. Both are \<open>1\<close>.
\<close>

theorem usage_exit_status_counterexample:
  "exit_status (fst (main demo_lib [''parse.py''] broken_fs)) = 1
   \<and> exit_status (fst (main demo_lib [''parse.py'', ''results''] broken_fs)) = 1"
proof -
  have "fst (main demo_lib [''parse.py''] broken_fs) = SystemExit 1"
    by (simp add: main_def)
  then show ?thesis by (simp add: broken_run_outcome)
qed

text \<open>
  Claim C9, amended. Without a results directory on the command line the run
  prints the two usage lines on standard output, touches no file and ends by
  \<open>sys.exit(1)\<close>: its exit status is \<open>1\<close>, not zero, and it is the status every
  uncaught exception also gives.
\<close>

theorem usage_exit:
  assumes "length argv < 2"
  shows "main lib argv fs = (SystemExit 1, usage, fs)
    \<and> exit_status (fst (main lib argv fs)) = 1
    \<and> exit_status (Uncaught e) = exit_status (fst (main lib argv fs))"
  using assms by (simp add: main_def)

theorem usage_exit_witness:
  "length [''parse.py''] < 2
   \<and> main demo_lib [''parse.py''] demo_fs = (SystemExit 1, usage, demo_fs)
   \<and> exit_status (fst (main demo_lib [''parse.py''] demo_fs)) = 1
   \<and> exit_status (Uncaught JSONDecodeError) = exit_status (fst (main demo_lib [''parse.py''] demo_fs))"
proof -
  have len: "length [''parse.py''] < 2" by simp
  show ?thesis
    using usage_exit [OF len, of demo_lib demo_fs JSONDecodeError] len by simp
qed

subsection \<open>What the loops store in the summary\<close>

lemma scenarios_eq:
  "scenarios = [''s01'', ''s02'', ''s03'', ''s04'', ''s05'', ''s06'', ''s07'', ''s08'', ''s09'', ''s10'']"
  by code_simp

lemma distinct_scenarios: "distinct scenarios"
  by (simp add: scenarios_eq)

lemma distinct_gateways: "distinct gateways"
  by (simp add: gateways_def)

lemma scenario_entry_result:
  "scenario_entry lib fs gw_dir scenario =
     (if path_exists fs (gw_dir @ [scenario @ ''-summary.json''])
      then (case parse_k6_summary lib fs (gw_dir @ [scenario @ ''-summary.json'']) of
              Inl e \<Rightarrow> Inl e
            | Inr p \<Rightarrow>
                if path_exists fs (gw_dir @ [scenario @ ''-resources.csv''])
                then (case parse_resources lib fs (gw_dir @ [scenario @ ''-resources.csv'']) of
                        Inl e \<Rightarrow> Inl e
                      | Inr r \<Rightarrow> Inr [(''performance'', p), (''resources'', r)])
                else Inr [(''performance'', p)])
      else if path_exists fs (gw_dir @ [scenario @ ''-resources.csv''])
           then (case parse_resources lib fs (gw_dir @ [scenario @ ''-resources.csv'']) of
                   Inl e \<Rightarrow> Inl e
                 | Inr r \<Rightarrow> Inr [(''resources'', r)])
           else Inr [])"
  by (simp add: scenario_entry_def Let_def split: sum.splits)

lemma scenario_loop_step:
  assumes "scenario_loop lib fs gw_dir (s # rest) acc = Inr d"
  obtains entry where "scenario_entry lib fs gw_dir s = Inr entry"
    and "scenario_loop lib fs gw_dir rest
        (if entry \<noteq> [] then AList.update s (PDict entry) acc else acc) = Inr d"
  using assms by (auto simp: and_then_eq_Inr)

lemma scenario_loop_other:
  assumes "scenario \<notin> set scs"
    and "scenario_loop lib fs gw_dir scs acc = Inr d"
  shows "map_of d scenario = map_of acc scenario"
  using assms
proof (induction scs arbitrary: acc)
  case Nil
  then show ?case by simp
next
  case (Cons s rest)
  from Cons.prems(2) obtain entry
    where loop: "scenario_loop lib fs gw_dir rest
        (if entry \<noteq> [] then AList.update s (PDict entry) acc else acc) = Inr d"
    by (rule scenario_loop_step)
  from Cons.prems(1) have "scenario \<notin> set rest" and "scenario \<noteq> s" by auto
  from Cons.IH [OF this(1) loop] this(2) show ?case
    by (simp add: update_conv)
qed

lemma map_of_update_other: "k' \<noteq> k \<Longrightarrow> map_of (AList.update k v al) k' = map_of al k'"
  by (simp add: update_conv)

lemma map_of_update_same: "map_of (AList.update k v al) k = Some v"
  by (simp add: update_conv)

lemma scenario_loop_lookup:
  assumes "distinct scs"
    and "scenario_loop lib fs gw_dir scs acc = Inr d"
    and "scenario \<in> set scs"
  shows "\<exists>entry. scenario_entry lib fs gw_dir scenario = Inr entry
    \<and> map_of d scenario = (if entry \<noteq> [] then Some (PDict entry) else map_of acc scenario)"
  using assms
proof (induction scs arbitrary: acc)
  case Nil
  then show ?case by simp
next
  case (Cons s rest)
  from Cons.prems(2) obtain entry where entry: "scenario_entry lib fs gw_dir s = Inr entry"
    and loop: "scenario_loop lib fs gw_dir rest
        (if entry \<noteq> [] then AList.update s (PDict entry) acc else acc) = Inr d"
    by (rule scenario_loop_step)
  show ?case
  proof (cases "scenario = s")
    case True
    from Cons.prems(1) have "s \<notin> set rest" by simp
    from scenario_loop_other [OF this loop]
    have "map_of d s = (if entry \<noteq> [] then Some (PDict entry) else map_of acc s)"
      by (simp add: map_of_update_same)
    with entry show ?thesis unfolding True by blast
  next
    case False
    with Cons.prems have "distinct rest" and "scenario \<in> set rest" by auto
    from Cons.IH [OF this(1) loop this(2)] obtain entry'
      where e': "scenario_entry lib fs gw_dir scenario = Inr entry'"
        and m: "map_of d scenario = (if entry' \<noteq> [] then Some (PDict entry')
          else map_of (if entry \<noteq> [] then AList.update s (PDict entry) acc else acc) scenario)"
      by blast
    have "map_of (if entry \<noteq> [] then AList.update s (PDict entry) acc else acc) scenario
        = map_of acc scenario"
      using False by (simp add: map_of_update_other)
    with m have "map_of d scenario
        = (if entry' \<noteq> [] then Some (PDict entry') else map_of acc scenario)"
      by simp
    with e' show ?thesis by blast
  qed
qed

lemma gateway_loop_step:
  assumes "gateway_loop lib fs results_dir (g # rest) summary = Inr s"
  obtains (absent) "\<not> path_exists fs (results_dir @ [g])"
      and "gateway_loop lib fs results_dir rest summary = Inr s"
    | (present) d where "path_exists fs (results_dir @ [g])"
      and "scenario_loop lib fs (results_dir @ [g]) scenarios [] = Inr d"
      and "gateway_loop lib fs results_dir rest (AList.update g (PDict d) summary) = Inr s"
proof (cases "path_exists fs (results_dir @ [g])")
  case False
  with assms have "gateway_loop lib fs results_dir rest summary = Inr s"
    by (simp add: Let_def)
  with False show thesis by (rule absent)
next
  case True
  with assms have "and_then (scenario_loop lib fs (results_dir @ [g]) scenarios [])
      (\<lambda>d. gateway_loop lib fs results_dir rest (AList.update g (PDict d) summary)) = Inr s"
    by (simp add: Let_def)
  then obtain d where "scenario_loop lib fs (results_dir @ [g]) scenarios [] = Inr d"
    and "gateway_loop lib fs results_dir rest (AList.update g (PDict d) summary) = Inr s"
    unfolding and_then_eq_Inr by blast
  with True show thesis by (rule present)
qed

lemma gateway_loop_other:
  assumes "gw \<notin> set gws"
    and "gateway_loop lib fs results_dir gws summary = Inr s"
  shows "map_of s gw = map_of summary gw"
  using assms
proof (induction gws arbitrary: summary)
  case Nil
  then show ?case by simp
next
  case (Cons g rest)
  from Cons.prems(1) have notin: "gw \<notin> set rest" and neq: "gw \<noteq> g" by auto
  from Cons.prems(2) show ?case
  proof (cases rule: gateway_loop_step)
    case absent
    from Cons.IH [OF notin absent(2)] show ?thesis .
  next
    case (present d)
    from Cons.IH [OF notin present(3)] neq show ?thesis
      by (simp add: update_conv)
  qed
qed

lemma gateway_loop_lookup:
  assumes "distinct gws"
    and "gateway_loop lib fs results_dir gws summary = Inr s"
    and "gw \<in> set gws"
  shows "if path_exists fs (results_dir @ [gw])
    then \<exists>d. scenario_loop lib fs (results_dir @ [gw]) scenarios [] = Inr d
           \<and> map_of s gw = Some (PDict d)
    else map_of s gw = map_of summary gw"
  using assms
proof (induction gws arbitrary: summary)
  case Nil
  then show ?case by simp
next
  case (Cons g rest)
  from Cons.prems(1) have dist: "distinct rest" and fresh: "g \<notin> set rest" by auto
  from Cons.prems(2) show ?case
  proof (cases rule: gateway_loop_step)
    case absent
    show ?thesis
    proof (cases "gw = g")
      case True
      with absent(1) gateway_loop_other [OF fresh absent(2)] show ?thesis by simp
    next
      case False
      with Cons.prems(3) have "gw \<in> set rest" by simp
      from Cons.IH [OF dist absent(2) this] show ?thesis .
    qed
  next
    case (present d)
    show ?thesis
    proof (cases "gw = g")
      case True
      with present(1,2) gateway_loop_other [OF fresh present(3)] show ?thesis
        by (simp add: update_conv)
    next
      case False
      with Cons.prems(3) have "gw \<in> set rest" by simp
      from Cons.IH [OF dist present(3) this] False show ?thesis
        by (simp add: update_conv)
    qed
  qed
qed

text \<open>
  Claim C2. In the summary the loops build, for every gateway and scenario:
  when, in a gateway directory that exists, only \<open><scenario>-summary.json\<close> exists,
  the entry of the pair is the one key \<open>performance\<close>, so it has no key \<open>resources\<close>;
  when only \<open><scenario>-resources.csv\<close> exists, the entry is the one key
  \<open>resources\<close>; and when neither file exists, the summary has no entry for the
  pair. A missing file raises nothing.
\<close>

theorem missing_files_skipped:
  assumes "gateway_loop lib fs results_dir gateways [] = Inr summary"
    and "gw \<in> set gateways"
    and "scenario \<in> set scenarios"
  shows "(path_exists fs (results_dir @ [gw])
        \<and> path_exists fs (results_dir @ [gw, scenario @ ''-summary.json''])
        \<and> \<not> path_exists fs (results_dir @ [gw, scenario @ ''-resources.csv''])
      \<longrightarrow> (\<exists>p. parse_k6_summary lib fs (results_dir @ [gw, scenario @ ''-summary.json'']) = Inr p
            \<and> at_path (PDict summary) [gw, scenario] = Some (PDict [(''performance'', p)])))
    \<and> (path_exists fs (results_dir @ [gw])
        \<and> \<not> path_exists fs (results_dir @ [gw, scenario @ ''-summary.json''])
        \<and> path_exists fs (results_dir @ [gw, scenario @ ''-resources.csv''])
      \<longrightarrow> (\<exists>r. parse_resources lib fs (results_dir @ [gw, scenario @ ''-resources.csv'']) = Inr r
            \<and> at_path (PDict summary) [gw, scenario] = Some (PDict [(''resources'', r)])))
    \<and> (\<not> path_exists fs (results_dir @ [gw, scenario @ ''-summary.json''])
        \<and> \<not> path_exists fs (results_dir @ [gw, scenario @ ''-resources.csv''])
      \<longrightarrow> at_path (PDict summary) [gw, scenario] = None)"
proof (cases "path_exists fs (results_dir @ [gw])")
  case False
  with gateway_loop_lookup [OF distinct_gateways assms(1,2)]
  have "map_of summary gw = None" by simp
  then have "at_path (PDict summary) [gw, scenario] = None" by simp
  with False show ?thesis by simp
next
  case True
  let ?dir = "results_dir @ [gw]"
  let ?k6 = "?dir @ [scenario @ ''-summary.json'']"
  let ?res = "?dir @ [scenario @ ''-resources.csv'']"
  from True gateway_loop_lookup [OF distinct_gateways assms(1,2)]
  obtain d where loop: "scenario_loop lib fs ?dir scenarios [] = Inr d"
    and gwd: "map_of summary gw = Some (PDict d)"
    by auto
  from scenario_loop_lookup [OF distinct_scenarios loop assms(3)]
  obtain entry where entry: "scenario_entry lib fs ?dir scenario = Inr entry"
    and look: "map_of d scenario = (if entry \<noteq> [] then Some (PDict entry) else None)"
    by auto
  have at: "at_path (PDict summary) [gw, scenario]
      = (if entry \<noteq> [] then Some (PDict entry) else None)"
    by (simp add: gwd look)
  have a: "\<exists>p. parse_k6_summary lib fs ?k6 = Inr p
      \<and> at_path (PDict summary) [gw, scenario] = Some (PDict [(''performance'', p)])"
    if "path_exists fs ?k6" and "\<not> path_exists fs ?res"
  proof (cases "parse_k6_summary lib fs ?k6")
    case (Inl e)
    with that entry show ?thesis by (simp add: scenario_entry_result)
  next
    case (Inr p)
    with that entry have "entry = [(''performance'', p)]"
      by (simp add: scenario_entry_result)
    with at Inr show ?thesis by simp
  qed
  have b: "\<exists>r. parse_resources lib fs ?res = Inr r
      \<and> at_path (PDict summary) [gw, scenario] = Some (PDict [(''resources'', r)])"
    if "\<not> path_exists fs ?k6" and "path_exists fs ?res"
  proof (cases "parse_resources lib fs ?res")
    case (Inl e)
    with that entry show ?thesis by (simp add: scenario_entry_result)
  next
    case (Inr r)
    with that entry have "entry = [(''resources'', r)]"
      by (simp add: scenario_entry_result)
    with at Inr show ?thesis by simp
  qed
  have c: "at_path (PDict summary) [gw, scenario] = None"
    if "\<not> path_exists fs ?k6" and "\<not> path_exists fs ?res"
  proof -
    from that entry have "entry = []" by (simp add: scenario_entry_result)
    with at show ?thesis by simp
  qed
  from True a b c show ?thesis by simp
qed

lemma demo_entries:
  "path_exists demo_fs [''results'', ''go'']"
  "path_exists demo_fs [''results'', ''go'', ''s01-summary.json'']"
  "\<not> path_exists demo_fs [''results'', ''go'', ''s01-resources.csv'']"
  "\<not> path_exists demo_fs [''results'', ''go'', ''s02-summary.json'']"
  "path_exists demo_fs [''results'', ''go'', ''s02-resources.csv'']"
  "\<not> path_exists demo_fs [''results'', ''go'', ''s03-summary.json'']"
  "\<not> path_exists demo_fs [''results'', ''go'', ''s03-resources.csv'']"
  by (simp_all add: path_exists_def demo_fs_def)

lemma demo_members:
  "''go'' \<in> set gateways" "''node'' \<in> set gateways" "''next'' \<in> set gateways"
  "''s01'' \<in> set scenarios" "''s02'' \<in> set scenarios" "''s03'' \<in> set scenarios"
  by (simp_all add: gateways_def scenarios_eq)

theorem missing_files_skipped_witness:
  "gateway_loop demo_lib demo_fs [''results''] gateways [] = Inr demo_summary
   \<and> ''go'' \<in> set gateways \<and> ''s01'' \<in> set scenarios
   \<and> ''s02'' \<in> set scenarios \<and> ''s03'' \<in> set scenarios
   \<and> path_exists demo_fs [''results'', ''go'']
   \<and> path_exists demo_fs [''results'', ''go'', ''s01-summary.json'']
   \<and> \<not> path_exists demo_fs [''results'', ''go'', ''s01-resources.csv'']
   \<and> at_path (PDict demo_summary) [''go'', ''s01'']
       = Some (PDict [(''performance'', demo_performance)])
   \<and> \<not> path_exists demo_fs [''results'', ''go'', ''s02-summary.json'']
   \<and> path_exists demo_fs [''results'', ''go'', ''s02-resources.csv'']
   \<and> at_path (PDict demo_summary) [''go'', ''s02'']
       = Some (PDict [(''resources'', demo_resources)])
   \<and> \<not> path_exists demo_fs [''results'', ''go'', ''s03-summary.json'']
   \<and> \<not> path_exists demo_fs [''results'', ''go'', ''s03-resources.csv'']
   \<and> at_path (PDict demo_summary) [''go'', ''s03''] = None"
proof -
  note t = missing_files_skipped [OF demo_build demo_members(1)]
  from t [OF demo_members(4)] demo_entries
  have a: "at_path (PDict demo_summary) [''go'', ''s01'']
      = Some (PDict [(''performance'', demo_performance)])"
    by (simp add: demo_k6_parses)
  from t [OF demo_members(5)] demo_entries
  have b: "at_path (PDict demo_summary) [''go'', ''s02'']
      = Some (PDict [(''resources'', demo_resources)])"
    by (simp add: demo_resources_parse)
  from t [OF demo_members(6)] demo_entries
  have c: "at_path (PDict demo_summary) [''go'', ''s03''] = None"
    by simp
  show ?thesis
    by (intro conjI demo_build demo_members demo_entries a b c)
qed

subsection \<open>What a finished run has written\<close>

lemma scenario_loop_empty:
  assumes "\<forall>sc \<in> set scs. \<not> path_exists fs (gw_dir @ [sc @ ''-summary.json''])
      \<and> \<not> path_exists fs (gw_dir @ [sc @ ''-resources.csv''])"
  shows "scenario_loop lib fs gw_dir scs acc = Inr acc"
  using assms by (induction scs arbitrary: acc) (simp_all add: scenario_entry_result)

lemma open_write_result:
  assumes "open_write fs parent target content = Inr fs'"
  shows "fs' = fs(target \<mapsto> File content) \<and> fs parent = Some Dir \<and> fs target \<noteq> Some Dir"
  using assms by (auto simp: open_write_def split: option.splits node.splits)

lemma main_returned:
  assumes "main lib argv fs = (Returned, out, fs')"
  obtains summary lines where "2 \<le> length argv"
    and "gateway_loop lib fs (path_of_str lib (argv ! 1)) gateways [] = Inr summary"
    and "print_tables lib summary scenarios banner = (lines, None)"
    and "open_write fs (path_of_str lib (argv ! 1))
           (path_of_str lib (argv ! 1) @ [''summary.json'']) (json_dump lib (PDict summary))
         = Inr fs'"
proof -
  have len: "2 \<le> length argv"
    using assms by (cases "length argv < 2") (simp_all add: main_def)
  let ?rd = "path_of_str lib (argv ! 1)"
  show thesis
  proof (cases "gateway_loop lib fs ?rd gateways []")
    case (Inl e)
    with len assms show ?thesis by (simp add: main_def Let_def)
  next
    case (Inr summary)
    obtain lines stop where pt: "print_tables lib summary scenarios banner = (lines, stop)"
      by (cases "print_tables lib summary scenarios banner") auto
    show ?thesis
    proof (cases stop)
      case (Some e)
      with len assms Inr pt show ?thesis by (simp add: main_def Let_def)
    next
      case None
      show ?thesis
      proof (cases "open_write fs ?rd (?rd @ [''summary.json'']) (json_dump lib (PDict summary))")
        case (Inl e)
        with len assms Inr pt None show ?thesis by (simp add: main_def Let_def)
      next
        case (Inr fs'')
        with len assms \<open>gateway_loop lib fs ?rd gateways [] = Inr summary\<close> pt None
        have "fs'' = fs'" by (simp add: main_def Let_def)
        with Inr len \<open>gateway_loop lib fs ?rd gateways [] = Inr summary\<close> pt None that
        show ?thesis by simp
      qed
    qed
  qed
qed

text \<open>
  Claim C10. When a run finishes, the file \<open>summary.json\<close> holds the summary the
  loops built, and in that summary a gateway is absent exactly when its directory
  does not exist: a gateway whose directory exists and holds none of the scenario
  files is a key of the summary, with the empty dictionary as its value.
\<close>

theorem empty_variant_kept:
  assumes "main lib argv fs = (Returned, out, fs')"
    and "gw \<in> set gateways"
  shows "\<exists>summary.
      gateway_loop lib fs (path_of_str lib (argv ! 1)) gateways [] = Inr summary
    \<and> fs' (path_of_str lib (argv ! 1) @ [''summary.json''])
        = Some (File (json_dump lib (PDict summary)))
    \<and> (map_of summary gw = None \<longleftrightarrow> \<not> path_exists fs (path_of_str lib (argv ! 1) @ [gw]))
    \<and> (path_exists fs (path_of_str lib (argv ! 1) @ [gw])
        \<and> (\<forall>sc \<in> set scenarios.
              \<not> path_exists fs (path_of_str lib (argv ! 1) @ [gw, sc @ ''-summary.json''])
            \<and> \<not> path_exists fs (path_of_str lib (argv ! 1) @ [gw, sc @ ''-resources.csv'']))
      \<longrightarrow> map_of summary gw = Some (PDict []))"
proof -
  let ?rd = "path_of_str lib (argv ! 1)"
  from assms(1) obtain summary
    where build: "gateway_loop lib fs ?rd gateways [] = Inr summary"
      and written: "open_write fs ?rd (?rd @ [''summary.json'']) (json_dump lib (PDict summary))
         = Inr fs'"
    by (rule main_returned)
  from open_write_result [OF written]
  have stored: "fs' (?rd @ [''summary.json'']) = Some (File (json_dump lib (PDict summary)))"
    by simp
  note look = gateway_loop_lookup [OF distinct_gateways build assms(2)]
  have absent: "map_of summary gw = None \<longleftrightarrow> \<not> path_exists fs (?rd @ [gw])"
    using look by (cases "path_exists fs (?rd @ [gw])") auto
  have empty: "map_of summary gw = Some (PDict [])"
    if dir: "path_exists fs (?rd @ [gw])"
      and none: "\<forall>sc \<in> set scenarios.
              \<not> path_exists fs (?rd @ [gw, sc @ ''-summary.json''])
            \<and> \<not> path_exists fs (?rd @ [gw, sc @ ''-resources.csv''])"
  proof -
    from none have "scenario_loop lib fs (?rd @ [gw]) scenarios [] = Inr []"
      by (intro scenario_loop_empty) simp
    with look dir show ?thesis by simp
  qed
  show ?thesis
  proof (rule exI [of _ summary], intro conjI impI)
    show "gateway_loop lib fs ?rd gateways [] = Inr summary" by (rule build)
    show "fs' (?rd @ [''summary.json'']) = Some (File (json_dump lib (PDict summary)))"
      by (rule stored)
    show "map_of summary gw = None \<longleftrightarrow> \<not> path_exists fs (?rd @ [gw])" by (rule absent)
  next
    assume "path_exists fs (?rd @ [gw])
        \<and> (\<forall>sc \<in> set scenarios.
              \<not> path_exists fs (?rd @ [gw, sc @ ''-summary.json''])
            \<and> \<not> path_exists fs (?rd @ [gw, sc @ ''-resources.csv'']))"
    then show "map_of summary gw = Some (PDict [])" using empty by blast
  qed
qed

lemma demo_run_returns:
  "main demo_lib [''parse.py'', ''results''] demo_fs
     = (Returned, fst (snd (main demo_lib [''parse.py'', ''results''] demo_fs)),
        snd (snd (main demo_lib [''parse.py'', ''results''] demo_fs)))"
  using demo_run_outcome by (simp add: prod_eq_iff)

lemma demo_node_empty:
  "list_all (\<lambda>sc. \<not> path_exists demo_fs [''results'', ''node'', sc @ ''-summary.json'']
       \<and> \<not> path_exists demo_fs [''results'', ''node'', sc @ ''-resources.csv'']) scenarios"
  by (simp add: scenarios_eq path_exists_def demo_fs_def)

theorem empty_variant_kept_witness:
  "main demo_lib [''parse.py'', ''results''] demo_fs
     = (Returned, fst (snd (main demo_lib [''parse.py'', ''results''] demo_fs)),
        snd (snd (main demo_lib [''parse.py'', ''results''] demo_fs)))
   \<and> ''node'' \<in> set gateways
   \<and> ''next'' \<in> set gateways
   \<and> gateway_loop demo_lib demo_fs [''results''] gateways [] = Inr demo_summary
   \<and> snd (snd (main demo_lib [''parse.py'', ''results''] demo_fs)) [''results'', ''summary.json'']
       = Some (File (json_dump demo_lib (PDict demo_summary)))
   \<and> path_exists demo_fs [''results'', ''node'']
   \<and> list_all (\<lambda>sc. \<not> path_exists demo_fs [''results'', ''node'', sc @ ''-summary.json'']
         \<and> \<not> path_exists demo_fs [''results'', ''node'', sc @ ''-resources.csv'']) scenarios
   \<and> map_of demo_summary ''node'' = Some (PDict [])
   \<and> \<not> path_exists demo_fs [''results'', ''next'']
   \<and> map_of demo_summary ''next'' = None"
proof -
  have rd: "path_of_str demo_lib ([''parse.py'', ''results''] ! 1) = [''results'']"
    by (simp add: demo_lib_def)
  have node: "path_exists demo_fs [''results'', ''node'']"
    and "next": "\<not> path_exists demo_fs [''results'', ''next'']"
    by (simp_all add: path_exists_def demo_fs_def)
  from empty_variant_kept [OF demo_run_returns demo_members(2)]
  have a: "map_of demo_summary ''node'' = Some (PDict [])"
    unfolding rd demo_build using node demo_node_empty by (auto simp: list_all_iff)
  from empty_variant_kept [OF demo_run_returns demo_members(3)]
  have b: "map_of demo_summary ''next'' = None"
    unfolding rd demo_build using "next" by auto
  show ?thesis
    by (intro conjI demo_run_returns demo_members demo_build demo_run_file node "next"
        demo_node_empty a b)
qed

subsection \<open>A second run on the same directory\<close>

text \<open>The loops read nothing that is directly in the results directory.\<close>

lemma path_exists_upd: "p \<noteq> q \<Longrightarrow> path_exists (fs(q \<mapsto> x)) p = path_exists fs p"
  by (simp add: path_exists_def)

lemma open_read_upd: "p \<noteq> q \<Longrightarrow> open_read (fs(q \<mapsto> x)) p = open_read fs p"
  by (simp add: open_read_def)

lemma parse_k6_summary_upd:
  "p \<noteq> q \<Longrightarrow> parse_k6_summary lib (fs(q \<mapsto> x)) p = parse_k6_summary lib fs p"
  by (simp add: parse_k6_summary_def open_read_upd)

lemma parse_resources_upd:
  "p \<noteq> q \<Longrightarrow> parse_resources lib (fs(q \<mapsto> x)) p = parse_resources lib fs p"
  by (simp add: parse_resources_def load_rows_def open_read_upd)

lemma scenario_entry_upd:
  "scenario_entry lib (fs(results_dir @ [name] \<mapsto> x)) (results_dir @ [gw]) scenario
     = scenario_entry lib fs (results_dir @ [gw]) scenario"
  by (simp add: scenario_entry_def Let_def path_exists_upd parse_k6_summary_upd
      parse_resources_upd)

lemma scenario_loop_upd:
  "scenario_loop lib (fs(results_dir @ [name] \<mapsto> x)) (results_dir @ [gw]) scs acc
     = scenario_loop lib fs (results_dir @ [gw]) scs acc"
  by (induction scs arbitrary: acc) (simp_all add: scenario_entry_upd)

lemma gateway_loop_upd:
  "name \<notin> set gws \<Longrightarrow>
   gateway_loop lib (fs(results_dir @ [name] \<mapsto> x)) results_dir gws summary
     = gateway_loop lib fs results_dir gws summary"
proof (induction gws arbitrary: summary)
  case Nil
  show ?case by simp
next
  case (Cons g rest)
  from Cons.prems have "results_dir @ [g] \<noteq> results_dir @ [name]" and "name \<notin> set rest"
    by auto
  note pe = path_exists_upd [OF this(1), of fs x] and ih = Cons.IH [OF this(2)]
  show ?case
    by (simp only: gateway_loop.simps Let_def pe ih scenario_loop_upd)
qed

lemma main_given:
  assumes "2 \<le> length argv"
  shows "main lib argv fs =
    (case gateway_loop lib fs (path_of_str lib (argv ! 1)) gateways [] of
       Inl e \<Rightarrow> (Uncaught e, [], fs)
     | Inr summary \<Rightarrow>
         (case print_tables lib summary scenarios banner of
            (out, Some e) \<Rightarrow> (Uncaught e, out, fs)
          | (out, None) \<Rightarrow>
              (case open_write fs (path_of_str lib (argv ! 1))
                      (path_of_str lib (argv ! 1) @ [''summary.json''])
                      (json_dump lib (PDict summary)) of
                 Inl e \<Rightarrow> (Uncaught e, out, fs)
               | Inr fs' \<Rightarrow>
                   (Returned,
                    out @ [CHR 0x0A # ''Full summary saved to: ''
                             @ path_str lib (path_of_str lib (argv ! 1) @ [''summary.json''])],
                    fs'))))"
proof -
  from assms have "\<not> length argv < 2" by simp
  then show ?thesis
    unfolding main_def Let_def by (simp only: if_False)
qed

lemma summary_not_gateway: "''summary.json'' \<notin> set gateways"
  by (simp add: gateways_def)

lemma main_twice:
  "main lib argv (snd (snd (main lib argv fs))) = main lib argv fs"
proof (cases "length argv < 2")
  case True
  then show ?thesis by (simp add: main_def)
next
  case False
  then have len: "2 \<le> length argv" by simp
  let ?rd = "path_of_str lib (argv ! 1)"
  let ?out = "?rd @ [''summary.json'']"
  show ?thesis
  proof (cases "gateway_loop lib fs ?rd gateways []")
    case (Inl e)
    then have "main lib argv fs = (Uncaught e, [], fs)"
      by (simp add: main_given [OF len])
    then show ?thesis by simp
  next
    case (Inr summary)
    obtain lines stop where pt: "print_tables lib summary scenarios banner = (lines, stop)"
      by (cases "print_tables lib summary scenarios banner") auto
    show ?thesis
    proof (cases stop)
      case (Some e)
      with Inr pt have "main lib argv fs = (Uncaught e, lines, fs)"
        by (simp add: main_given [OF len])
      then show ?thesis by simp
    next
      case None
      let ?content = "json_dump lib (PDict summary)"
      show ?thesis
      proof (cases "open_write fs ?rd ?out ?content")
        case (Inl e)
        with Inr pt None have "main lib argv fs = (Uncaught e, lines, fs)"
          by (simp add: main_given [OF len])
        then show ?thesis by simp
      next
        case written: (Inr fs')
        from open_write_result [OF written]
        have fs': "fs' = fs(?out \<mapsto> File ?content)" and dir: "fs ?rd = Some Dir"
          by simp_all
        have first: "main lib argv fs = (Returned,
            lines @ [CHR 0x0A # ''Full summary saved to: '' @ path_str lib ?out], fs')"
          using Inr pt None written by (simp add: main_given [OF len])
        have build: "gateway_loop lib fs' ?rd gateways [] = Inr summary"
          unfolding fs' using Inr by (simp add: gateway_loop_upd [OF summary_not_gateway])
        have again: "open_write fs' ?rd ?out ?content = Inr fs'"
          using dir by (simp add: open_write_def fs')
        have "main lib argv fs' = (Returned,
            lines @ [CHR 0x0A # ''Full summary saved to: '' @ path_str lib ?out], fs')"
          using build pt None again by (simp add: main_given [OF len])
        with first show ?thesis by simp
      qed
    qed
  qed
qed

text \<open>
  Claim C5. A run is a function of the command line and of the files it reads:
  the script reads no clock and draws no random number, and a dictionary keeps
  the order of insertion. Running it a second time on the directory the first run
  left (the same files, with \<open>summary.json\<close> now among them) ends the same way,
  prints the same lines and leaves the same files: \<open>summary.json\<close> is the same,
  byte for byte.
\<close>

theorem main_idempotent:
  "main lib argv (snd (snd (main lib argv fs))) = main lib argv fs
   \<and> snd (snd (main lib argv (snd (snd (main lib argv fs)))))
         (path_of_str lib (argv ! 1) @ [''summary.json''])
       = snd (snd (main lib argv fs)) (path_of_str lib (argv ! 1) @ [''summary.json''])"
  by (simp only: main_twice)

theorem main_idempotent_witness:
  "main demo_lib [''parse.py'', ''results'']
       (snd (snd (main demo_lib [''parse.py'', ''results''] demo_fs)))
     = main demo_lib [''parse.py'', ''results''] demo_fs
   \<and> snd (snd (main demo_lib [''parse.py'', ''results'']
         (snd (snd (main demo_lib [''parse.py'', ''results''] demo_fs)))))
       [''results'', ''summary.json'']
     = Some (File (json_dump demo_lib (PDict demo_summary)))
   \<and> fst (main demo_lib [''parse.py'', ''results''] demo_fs) = Returned
   \<and> snd (snd (main demo_lib [''parse.py'', ''results''] demo_fs)) [''results'', ''summary.json'']
       = Some (File (json_dump demo_lib (PDict demo_summary)))"
proof -
  from main_idempotent [of demo_lib "[''parse.py'', ''results'']" demo_fs]
  have same: "main demo_lib [''parse.py'', ''results'']
       (snd (snd (main demo_lib [''parse.py'', ''results''] demo_fs)))
     = main demo_lib [''parse.py'', ''results''] demo_fs"
    by (rule conjunct1)
  have again: "snd (snd (main demo_lib [''parse.py'', ''results'']
         (snd (snd (main demo_lib [''parse.py'', ''results''] demo_fs)))))
       [''results'', ''summary.json'']
     = Some (File (json_dump demo_lib (PDict demo_summary)))"
    unfolding same by (rule demo_run_file)
  show ?thesis
    by (intro conjI same again demo_run_outcome demo_run_file)
qed

end
